theory Spec2Isabelle
  imports Main "HOL-Library.Char_ord" "HOL-Library.List_Lexorder" "HOL-Library.Multiset"
begin

section \<open>Text helpers of the Python runtime\<close>

text \<open>
  \<open>str(n)\<close> for a natural number, \<open>str.zfill\<close>, and the part of \<open>int(s)\<close> that the
  program relies on: a non-empty run of ASCII digits. \<open>int\<close> also reads signs, blanks
  and underscores; such texts raise \<open>ValueError\<close> in this model, and no request id
  written by the program contains them.
\<close>

datatype exn = ValueError | IndexError

definition digit_char :: "nat \<Rightarrow> char" where
  "digit_char n = char_of (48 + n)"

definition is_digit :: "char \<Rightarrow> bool" where
  "is_digit c = (48 \<le> (of_char c :: nat) \<and> (of_char c :: nat) \<le> 57)"

definition digit_val :: "char \<Rightarrow> nat" where
  "digit_val c = of_char c - 48"

fun str_nat :: "nat \<Rightarrow> string" where
  "str_nat n = (if n < 10 then [digit_char n] else str_nat (n div 10) @ [digit_char (n mod 10)])"

declare str_nat.simps [simp del]

definition str_int :: "int \<Rightarrow> string" where
  "str_int i = (if i < 0 then CHR ''-'' # str_nat (nat (- i)) else str_nat (nat i))"

definition zfill :: "nat \<Rightarrow> string \<Rightarrow> string" where
  "zfill w s =
     (if w \<le> length s then s
      else (case s of
              [] \<Rightarrow> replicate w CHR ''0''
            | c # cs \<Rightarrow>
                if c = CHR ''+'' \<or> c = CHR ''-''
                then c # replicate (w - length s) CHR ''0'' @ cs
                else replicate (w - length s) CHR ''0'' @ s))"

definition digits_val :: "string \<Rightarrow> nat" where
  "digits_val s = foldl (\<lambda>acc c. 10 * acc + digit_val c) 0 s"

definition py_int :: "string \<Rightarrow> exn + int" where
  "py_int s = (if s \<noteq> [] \<and> list_all is_digit s then Inr (int (digits_val s)) else Inl ValueError)"

text \<open>\<open>s.split(".")\<close>: the pieces between the dots, in order; never empty.\<close>

fun split_dot :: "string \<Rightarrow> string list" where
  "split_dot [] = [[]]"
| "split_dot (c # cs) =
     (if c = CHR ''.'' then [] # split_dot cs
      else (case split_dot cs of p # ps \<Rightarrow> (c # p) # ps | [] \<Rightarrow> [[c]]))"

section \<open>Calendar dates and datetimes\<close>

text \<open>
  A \<open>date\<close> is its day number counted from 1970-01-01 (day 0); \<open>civil_from_days\<close> gives
  its year, month and day in the proleptic Gregorian calendar, \<open>days_from_civil\<close> goes
  back. Python's range of years (1 to 9999) is not enforced.
\<close>

definition days_from_civil :: "int \<Rightarrow> int \<Rightarrow> int \<Rightarrow> int" where
  "days_from_civil y0 m d =
     (let y = (if m \<le> 2 then y0 - 1 else y0);
          era = y div 400;
          yoe = y - era * 400;
          doy = (153 * (if m > 2 then m - 3 else m + 9) + 2) div 5 + d - 1;
          doe = yoe * 365 + yoe div 4 - yoe div 100 + doy
      in era * 146097 + doe - 719468)"

definition civil_from_days :: "int \<Rightarrow> int \<times> int \<times> int" where
  "civil_from_days z0 =
     (let z = z0 + 719468;
          era = z div 146097;
          doe = z - era * 146097;
          yoe = (doe - doe div 1460 + doe div 36524 - doe div 146096) div 365;
          doy = doe - (365 * yoe + yoe div 4 - yoe div 100);
          mp = (5 * doy + 2) div 153;
          d = doy - (153 * mp + 2) div 5 + 1;
          m = (if mp < 10 then mp + 3 else mp - 9);
          y = yoe + era * 400
      in (if m \<le> 2 then y + 1 else y, m, d))"

definition year_of :: "int \<Rightarrow> int" where
  "year_of d = fst (civil_from_days d)"

text \<open>\<open>date.weekday()\<close>: Monday is 0, Sunday is 6. Day 0 was a Thursday.\<close>

definition weekday :: "int \<Rightarrow> int" where
  "weekday d = (d + 3) mod 7"

text \<open>\<open>date.isoformat()\<close>: \<open>YYYY-MM-DD\<close>.\<close>

definition date_isoformat :: "int \<Rightarrow> string" where
  "date_isoformat d =
     (case civil_from_days d of (y, m, dd) \<Rightarrow>
        zfill 4 (str_int y) @ ''-'' @ zfill 2 (str_int m) @ ''-'' @ zfill 2 (str_int dd))"

text \<open>
  A \<open>datetime\<close>: the reading of its fields as microseconds counted from
  1970-01-01T00:00:00 on its own clock face (\<open>wall\<close>), and its \<open>tzinfo\<close>, absent for a
  naive value, else the offset from UTC in seconds. Arithmetic with a \<open>timedelta\<close>
  moves \<open>wall\<close> and keeps \<open>tzinfo\<close>, as Python does (pytz zones are not renormalised).
\<close>

record pydatetime =
  wall :: int
  tzinfo :: "int option"

definition SECOND :: int where "SECOND = 1000000"
definition HOUR :: int where "HOUR = 3600 * 1000000"
definition DAY :: int where "DAY = 86400 * 1000000"

definition mk_wall :: "int \<Rightarrow> int \<Rightarrow> int \<Rightarrow> int \<Rightarrow> int \<Rightarrow> int \<Rightarrow> int" where
  "mk_wall y m d hh mm ss = days_from_civil y m d * DAY + hh * HOUR + mm * 60 * SECOND + ss * SECOND"

definition add_hours :: "pydatetime \<Rightarrow> int \<Rightarrow> pydatetime" where
  "add_hours dt h = dt\<lparr>wall := wall dt + h * HOUR\<rparr>"

definition date_of :: "pydatetime \<Rightarrow> int" where
  "date_of dt = wall dt div DAY"

text \<open>The instant an aware datetime denotes, in microseconds of UTC.\<close>

definition utc_micros :: "int \<Rightarrow> int \<Rightarrow> int" where
  "utc_micros w off = w - off * SECOND"

section \<open>The Europe/London zone\<close>

text \<open>
  The zone table belongs to pytz, so the program's functions take it as a parameter:
  \<open>utcoffset_utc\<close> is the offset in force at a UTC instant (what \<open>astimezone\<close> uses),
  \<open>utcoffset_wall\<close> the offset \<open>localize\<close> gives to a naive clock reading.
\<close>

record tzdata =
  utcoffset_utc :: "int \<Rightarrow> int"
  utcoffset_wall :: "int \<Rightarrow> int"

definition astimezone :: "tzdata \<Rightarrow> int \<Rightarrow> int \<Rightarrow> pydatetime" where
  "astimezone tz w off =
     (let u = utc_micros w off; off2 = utcoffset_utc tz u
      in \<lparr>wall = u + off2 * SECOND, tzinfo = Some off2\<rparr>)"

definition localize :: "tzdata \<Rightarrow> pydatetime \<Rightarrow> pydatetime" where
  "localize tz dt = dt\<lparr>tzinfo := Some (utcoffset_wall tz (wall dt))\<rparr>"

text \<open>
  The table itself, by the rule in force since 1996: summer time (one hour ahead) from
  01:00 UTC on the last Sunday of March to 01:00 UTC on the last Sunday of October.
  \<open>localize\<close> (with pytz's default \<open>is_dst=False\<close>) gives summer time only to a
  reading that can be summer time and nothing else.
\<close>

definition last_sunday :: "int \<Rightarrow> int \<Rightarrow> int" where
  "last_sunday y m = (let d31 = days_from_civil y m 31 in d31 - (weekday d31 + 1) mod 7)"

definition london_utc :: "int \<Rightarrow> int" where
  "london_utc u =
     (let y = year_of (u div DAY)
      in if last_sunday y 3 * DAY + HOUR \<le> u \<and> u < last_sunday y 10 * DAY + HOUR
         then 3600 else 0)"

definition london_wall :: "int \<Rightarrow> int" where
  "london_wall w = (if london_utc (w - HOUR) = 3600 \<and> london_utc w = 3600 then 3600 else 0)"

definition europe_london :: tzdata where
  "europe_london = \<lparr>utcoffset_utc = london_utc, utcoffset_wall = london_wall\<rparr>"

section \<open>Weekends, bank holidays and working hours\<close>

definition is_weekend_or_bank_holiday :: "string set \<Rightarrow> int \<Rightarrow> bool" where
  "is_weekend_or_bank_holiday UK_BANK_HOLIDAYS d =
     (let wd = weekday d; date_str = date_isoformat d
      in (wd = 5 \<or> wd = 6) \<or> date_str \<in> UK_BANK_HOLIDAYS)"

text \<open>
  The \<open>while\<close> loop of \<open>add_working_hours_uk\<close>. With a holiday set that covers every day
  from some date on it never ends, so its result is an option: \<open>None\<close> stands for not
  returning.
\<close>

partial_function (option) working_hours_loop ::
    "string set \<Rightarrow> pydatetime \<Rightarrow> int \<Rightarrow> pydatetime option" where
  "working_hours_loop hol current_date remaining_hours =
     (if remaining_hours > 0
      then (if \<not> is_weekend_or_bank_holiday hol (date_of (add_hours current_date 1))
            then working_hours_loop hol (add_hours current_date 1) (remaining_hours - 1)
            else working_hours_loop hol (add_hours current_date 1) remaining_hours)
      else Some current_date)"

declare working_hours_loop.simps [code]

definition add_working_hours_uk ::
    "tzdata \<Rightarrow> string set \<Rightarrow> pydatetime \<Rightarrow> int \<Rightarrow> pydatetime option" where
  "add_working_hours_uk london hol start_date hours =
     working_hours_loop hol
       (if tzinfo start_date = None then localize london start_date else start_date) hours"

section \<open>The request store\<close>

text \<open>
  One row of table \<open>echo_requests\<close>. The text columns \<open>pathway\<close> and \<open>status\<close> only
  ever receive the values below (\<open>add_request\<close> refuses any other pathway). A time
  column holds the datetime whose ISO text is stored. \<open>expected_time\<close> may be NULL by
  the schema, but every writer supplies it.
\<close>

datatype pathway = PURPLE | RED | AMBER | GREEN | REJECTED

datatype status = PENDING | COMPLETED

record echo_request =
  row_id :: int
  request_id :: string
  pathway :: pathway
  request_time :: pydatetime
  expected_time :: pydatetime
  status :: status
  triage_date :: int
  completion_time :: "pydatetime option"
  notes_col :: string
  name :: string
  mrn :: string
  ward :: string

text \<open>
  The table, with the counter that \<open>AUTOINCREMENT\<close> keeps of the largest row id ever
  given out.
\<close>

record db =
  rows :: "echo_request list"
  last_rowid :: int

definition empty_db :: db where
  "empty_db = \<lparr>rows = [], last_rowid = 0\<rparr>"

definition next_rowid :: "db \<Rightarrow> int" where
  "next_rowid d = foldl max (last_rowid d) (map row_id (rows d)) + 1"

text \<open>
  The two clocks the handlers read: \<open>datetime.now()\<close>, a naive reading of the server's
  local time, and the UTC instant from which \<open>get_uk_time\<close> derives London time.
\<close>

record clock =
  utc_now :: int
  local_now :: int

definition get_uk_time :: "tzdata \<Rightarrow> clock \<Rightarrow> pydatetime" where
  "get_uk_time london clk = astimezone london (utc_now clk) 0"

text \<open>
  \<open>convert_to_uk_time\<close> and \<open>uk_time_to_iso\<close> on a datetime (on \<open>None\<close> both return
  \<open>None\<close>; no caller modelled here passes it). \<open>uk_time_to_iso\<close> yields the datetime
  whose \<open>isoformat()\<close> it returns. \<open>iso_to_uk_time\<close> receives what
  \<open>datetime.fromisoformat\<close> made of the text, \<open>None\<close> when the text is empty or
  \<open>fromisoformat\<close> raises.
\<close>

definition convert_to_uk_time :: "tzdata \<Rightarrow> pydatetime \<Rightarrow> pydatetime" where
  "convert_to_uk_time london dt =
     (case tzinfo dt of
        None \<Rightarrow> astimezone london (wall dt) 0
      | Some off \<Rightarrow> astimezone london (wall dt) off)"

definition uk_time_to_iso :: "tzdata \<Rightarrow> pydatetime \<Rightarrow> pydatetime" where
  "uk_time_to_iso london dt =
     (if tzinfo dt \<noteq> None then convert_to_uk_time london dt else localize london dt)"

definition iso_to_uk_time :: "tzdata \<Rightarrow> pydatetime option \<Rightarrow> pydatetime option" where
  "iso_to_uk_time london parsed =
     (case parsed of None \<Rightarrow> None | Some dt \<Rightarrow> Some (convert_to_uk_time london dt))"

subsection \<open>Display ids\<close>

text \<open>
  \<open>LIKE 'YY.%'\<close> holds of the texts that begin with \<open>YY.\<close> (the pattern has no
  letters); \<open>ORDER BY request_id DESC LIMIT 1\<close> takes the greatest text in byte order.
\<close>

definition like_prefix :: "string \<Rightarrow> string \<Rightarrow> bool" where
  "like_prefix p s = (take (length p) s = p)"

definition max_text :: "string list \<Rightarrow> string option" where
  "max_text xs = (case xs of [] \<Rightarrow> None | y # ys \<Rightarrow> Some (foldl max y ys))"

definition get_next_request_id :: "clock \<Rightarrow> db \<Rightarrow> exn + string" where
  "get_next_request_id clk d =
     (let current_year = year_of (local_now clk div DAY) mod 100;
          prefix = str_int current_year @ ''.''
      in case max_text (filter (like_prefix prefix) (map request_id (rows d))) of
           None \<Rightarrow> Inr (prefix @ zfill 4 (str_int 1))
         | Some last_request_id \<Rightarrow>
             (case split_dot last_request_id of
                p0 # p1 # ps \<Rightarrow>
                  (case py_int p1 of
                     Inl e \<Rightarrow> Inl e
                   | Inr last_seq \<Rightarrow> Inr (prefix @ zfill 4 (str_int (last_seq + 1))))
              | _ \<Rightarrow> Inl IndexError))"

text \<open>
  The text \<open>f"{yy}.{str(n).zfill(4)}"\<close> that the allocator builds for sequence number
  \<open>n\<close> in year \<open>yy\<close>, and its padded part.
\<close>

definition padded :: "nat \<Rightarrow> string" where
  "padded n = zfill 4 (str_int (int n))"

definition display_id :: "int \<Rightarrow> nat \<Rightarrow> string" where
  "display_id yy n = str_int yy @ ''.'' @ zfill 4 (str_int (int n))"

subsection \<open>The handlers that write\<close>

text \<open>
  A response is the JSON body with the HTTP status. Every handler answers an exception
  with status 500 and leaves the table as it was.
\<close>

datatype body =
    Error string
  | Status_success
  | Status_success_with string string
  | Request_id string

type_synonym response = "body \<times> nat"

record add_request_json =
  j_pathway :: "string option"
  j_request_time :: "pydatetime option option"
  j_name :: "string option"
  j_mrn :: "string option"
  j_ward :: "string option"

definition pathway_of_text :: "string \<Rightarrow> pathway option" where
  "pathway_of_text s =
     (if s = ''PURPLE PATHWAY'' then Some PURPLE
      else if s = ''RED PATHWAY'' then Some RED
      else if s = ''AMBER PATHWAY'' then Some AMBER
      else if s = ''GREEN PATHWAY'' then Some GREEN
      else if s = ''REJECTED'' then Some REJECTED
      else None)"

definition get_default :: "string option \<Rightarrow> string" where
  "get_default v = (case v of None \<Rightarrow> [] | Some s \<Rightarrow> s)"

definition insert_request :: "db \<Rightarrow> echo_request \<Rightarrow> db" where
  "insert_request d r =
     \<lparr>rows = rows d @ [r\<lparr>row_id := next_rowid d\<rparr>], last_rowid = next_rowid d\<rparr>"

definition add_request ::
    "tzdata \<Rightarrow> string set \<Rightarrow> clock \<Rightarrow> add_request_json option \<Rightarrow> db \<Rightarrow> (response \<times> db) option" where
  "add_request london hol clk data d =
     (case data of
        None \<Rightarrow> Some ((Error ''Invalid request data. Missing required fields.'', 400), d)
      | Some j \<Rightarrow>
        (case (j_pathway j, j_request_time j) of
           (Some p_text, Some parsed) \<Rightarrow>
             (case pathway_of_text p_text of
                None \<Rightarrow>
                  Some ((Error ''Invalid pathway. Must be one of: PURPLE PATHWAY, RED PATHWAY, AMBER PATHWAY, GREEN PATHWAY, REJECTED'', 400), d)
              | Some p \<Rightarrow>
                (case get_next_request_id clk d of
                   Inl e \<Rightarrow> Some ((Error ''Failed to add request'', 500), d)
                 | Inr new_id \<Rightarrow>
                   (case iso_to_uk_time london parsed of
                      None \<Rightarrow> Some ((Error ''Invalid request_time format'', 400), d)
                    | Some req_time \<Rightarrow>
                      (case (if p = PURPLE then add_working_hours_uk london hol req_time 1
                             else if p = RED then add_working_hours_uk london hol req_time 24
                             else if p = AMBER then add_working_hours_uk london hol req_time 72
                             else Some req_time) of
                         None \<Rightarrow> None
                       | Some exp_time \<Rightarrow>
                           Some ((Request_id new_id, 200),
                                 insert_request d
                                   \<lparr>row_id = 0,
                                    request_id = new_id,
                                    pathway = p,
                                    request_time = uk_time_to_iso london req_time,
                                    expected_time = uk_time_to_iso london exp_time,
                                    status = PENDING,
                                    triage_date = date_of (get_uk_time london clk),
                                    completion_time = None,
                                    notes_col = [],
                                    name = get_default (j_name j),
                                    mrn = get_default (j_mrn j),
                                    ward = get_default (j_ward j)\<rparr>)))))
         | _ \<Rightarrow> Some ((Error ''Invalid request data. Missing required fields.'', 400), d)))"

definition update_where :: "int \<Rightarrow> (echo_request \<Rightarrow> echo_request) \<Rightarrow> db \<Rightarrow> db" where
  "update_where i f d = d\<lparr>rows := map (\<lambda>r. if row_id r = i then f r else r) (rows d)\<rparr>"

definition mark_completed :: "tzdata \<Rightarrow> clock \<Rightarrow> int option \<Rightarrow> db \<Rightarrow> response \<times> db" where
  "mark_completed london clk data d =
     (case data of
        None \<Rightarrow> ((Error ''Invalid request data. Missing id.'', 400), d)
      | Some i \<Rightarrow>
          ((Status_success, 200),
           update_where i
             (\<lambda>r. r\<lparr>status := COMPLETED, completion_time := Some (get_uk_time london clk)\<rparr>) d))"

definition delete_request :: "int option \<Rightarrow> db \<Rightarrow> response \<times> db" where
  "delete_request data d =
     (case data of
        None \<Rightarrow> ((Error ''Invalid request data. Missing id.'', 400), d)
      | Some i \<Rightarrow> ((Status_success, 200), d\<lparr>rows := filter (\<lambda>r. row_id r \<noteq> i) (rows d)\<rparr>))"

definition undo_completed :: "int option \<Rightarrow> db \<Rightarrow> response \<times> db" where
  "undo_completed data d =
     (case data of
        None \<Rightarrow> ((Error ''Invalid request data. Missing id.'', 400), d)
      | Some i \<Rightarrow>
          ((Status_success, 200),
           update_where i (\<lambda>r. r\<lparr>status := PENDING, completion_time := None\<rparr>) d))"

text \<open>
  The four \<open>update_*\<close> handlers take the row id and the new text, \<open>""\<close> when the body
  has none.
\<close>

definition update_notes :: "(int \<times> string option) option \<Rightarrow> db \<Rightarrow> response \<times> db" where
  "update_notes data d =
     (case data of
        None \<Rightarrow> ((Error ''Invalid request data. Missing id.'', 400), d)
      | Some (i, v) \<Rightarrow>
          ((Status_success_with ''notes'' (get_default v), 200),
           update_where i (\<lambda>r. r\<lparr>notes_col := get_default v\<rparr>) d))"

definition update_name :: "(int \<times> string option) option \<Rightarrow> db \<Rightarrow> response \<times> db" where
  "update_name data d =
     (case data of
        None \<Rightarrow> ((Error ''Invalid request data. Missing id.'', 400), d)
      | Some (i, v) \<Rightarrow>
          ((Status_success_with ''name'' (get_default v), 200),
           update_where i (\<lambda>r. r\<lparr>name := get_default v\<rparr>) d))"

definition update_mrn :: "(int \<times> string option) option \<Rightarrow> db \<Rightarrow> response \<times> db" where
  "update_mrn data d =
     (case data of
        None \<Rightarrow> ((Error ''Invalid request data. Missing id.'', 400), d)
      | Some (i, v) \<Rightarrow>
          ((Status_success_with ''mrn'' (get_default v), 200),
           update_where i (\<lambda>r. r\<lparr>mrn := get_default v\<rparr>) d))"

definition update_ward :: "(int \<times> string option) option \<Rightarrow> db \<Rightarrow> response \<times> db" where
  "update_ward data d =
     (case data of
        None \<Rightarrow> ((Error ''Invalid request data. Missing id.'', 400), d)
      | Some (i, v) \<Rightarrow>
          ((Status_success_with ''ward'' (get_default v), 200),
           update_where i (\<lambda>r. r\<lparr>ward := get_default v\<rparr>) d))"

text \<open>A run of the service: the calls in the order they arrive, each with its clock.\<close>

datatype api_call =
    Add_request clock "add_request_json option"
  | Mark_completed clock "int option"
  | Undo_completed "int option"
  | Delete_request "int option"
  | Update_notes "(int \<times> string option) option"
  | Update_name "(int \<times> string option) option"
  | Update_mrn "(int \<times> string option) option"
  | Update_ward "(int \<times> string option) option"

fun handle :: "tzdata \<Rightarrow> string set \<Rightarrow> api_call \<Rightarrow> db \<Rightarrow> (response \<times> db) option" where
  "handle london hol (Add_request clk data) d = add_request london hol clk data d"
| "handle london hol (Mark_completed clk data) d = Some (mark_completed london clk data d)"
| "handle london hol (Undo_completed data) d = Some (undo_completed data d)"
| "handle london hol (Delete_request data) d = Some (delete_request data d)"
| "handle london hol (Update_notes data) d = Some (update_notes data d)"
| "handle london hol (Update_name data) d = Some (update_name data d)"
| "handle london hol (Update_mrn data) d = Some (update_mrn data d)"
| "handle london hol (Update_ward data) d = Some (update_ward data d)"

fun run :: "tzdata \<Rightarrow> string set \<Rightarrow> api_call list \<Rightarrow> db \<Rightarrow> (response list \<times> db) option" where
  "run london hol [] d = Some ([], d)"
| "run london hol (c # cs) d =
     (case handle london hol c d of
        None \<Rightarrow> None
      | Some (resp, d') \<Rightarrow>
          (case run london hol cs d' of
             None \<Rightarrow> None
           | Some (resps, d'') \<Rightarrow> Some (resp # resps, d'')))"

text \<open>
  The display ids that a list of responses hands out, in the order of the calls, and
  the calls that cannot free a number of year \<open>yy\<close>: a creation dated in that year,
  and every call that is not a deletion.
\<close>

fun handed_out :: "response list \<Rightarrow> string list" where
  "handed_out [] = []"
| "handed_out ((Request_id s, code) # rs) = s # handed_out rs"
| "handed_out (r # rs) = handed_out rs"

fun keeps_numbers :: "int \<Rightarrow> api_call \<Rightarrow> bool" where
  "keeps_numbers yy (Add_request clk data) = (year_of (local_now clk div DAY) mod 100 = yy)"
| "keeps_numbers yy (Delete_request data) = False"
| "keeps_numbers yy c = True"

text \<open>
  Python's \<open>==\<close> on datetimes: two aware values are equal when they denote the same
  instant, two naive ones when their fields agree, and a naive one never equals an
  aware one.
\<close>

definition datetime_eq :: "pydatetime \<Rightarrow> pydatetime \<Rightarrow> bool" where
  "datetime_eq a b =
     (case (tzinfo a, tzinfo b) of
        (None, None) \<Rightarrow> wall a = wall b
      | (Some oa, Some ob) \<Rightarrow> utc_micros (wall a) oa = utc_micros (wall b) ob
      | _ \<Rightarrow> False)"

text \<open>The invariant of the data model: a completion time is stored exactly for the completed rows.\<close>

definition completion_ok :: "echo_request \<Rightarrow> bool" where
  "completion_ok r = ((completion_time r \<noteq> None) = (status r = COMPLETED))"

definition completion_inv :: "db \<Rightarrow> bool" where
  "completion_inv d = (\<forall>r \<in> set (rows d). completion_ok r)"

section \<open>The queries\<close>

subsection \<open>What SQLite makes of the columns\<close>




text \<open>
  SQLite's date functions read such a text as an instant of UTC (a text without offset
  counts as UTC). \<open>julianday()\<close> gives the instant as a number of days, kept in whole
  milliseconds, rounded; differences of \<open>julianday()\<close> are kept in milliseconds here.
\<close>

definition sql_millis :: "pydatetime \<Rightarrow> int" where
  "sql_millis dt =
     (utc_micros (wall dt) (case tzinfo dt of None \<Rightarrow> 0 | Some off \<Rightarrow> off) + 500) div 1000"

text \<open>
  \<open>datetime()\<close> prints the instant to the second. \<open>sql_datetime\<close> is the second it
  prints, counted from 1970-01-01 00:00:00, so that comparing two \<open>datetime()\<close> texts is
  comparing these numbers, and \<open>None\<close> where \<open>datetime()\<close> gives NULL.

  \<^item> With no offset, or with the offset \<open>+00:00\<close>, the fields of the text are printed
    back as they were read and the fraction of the second is cut off.
  \<^item> With any other offset the instant is moved to UTC in whole milliseconds, rounded,
    and the second of that is printed: a fraction of \<open>.9995\<close> or more reaches the next
    second.
  \<^item> An offset is read as \<open>HH:MM\<close> with at most 14 hours; the text of an offset with
    a part in seconds is not read. An instant that rounds to a millisecond after the
    end of the year 9999 is not printed.

  Python holds the years 1 to 9999 only, so no other year reaches a column; they are
  given \<open>None\<close>. \<open>datetime(D)\<close> of a date is its midnight.
\<close>

definition sql_datetime :: "pydatetime \<Rightarrow> int option" where
  "sql_datetime dt =
     (let off = (case tzinfo dt of None \<Rightarrow> 0 | Some off2 \<Rightarrow> off2);
          y = year_of (wall dt div DAY)
      in if y < 1 \<or> 9999 < y then None
         else if off mod 60 \<noteq> 0 \<or> 14 * 3600 + 59 * 60 < abs off then None
         else if 253402300799999 < sql_millis dt then None
         else if off = 0 then Some (wall dt div SECOND)
         else Some (sql_millis dt div 1000))"

definition day_start :: "int \<Rightarrow> int" where
  "day_start d = d * 86400"



text \<open>
  \<open>CAST(text AS INTEGER)\<close>: leading blanks are skipped, then the longest leading
  integer of the text is taken, 0 when there is none.
\<close>

definition cast_integer :: "string \<Rightarrow> int" where
  "cast_integer s =
     (case dropWhile (\<lambda>c. c = CHR '' '') s of
        [] \<Rightarrow> 0
      | c # cs \<Rightarrow>
          if c = CHR ''-'' then - int (digits_val (takeWhile is_digit cs))
          else if c = CHR ''+'' then int (digits_val (takeWhile is_digit cs))
          else int (digits_val (takeWhile is_digit (c # cs))))"

subsection \<open>The list of requests\<close>












subsection \<open>Overdue requests per day\<close>

text \<open>
  The \<open>ON\<close> condition of the join of \<open>get_daily_overdue\<close>, for the date \<open>D\<close> (a day
  number) and a row. A comparison with NULL is not true: with a NULL
  \<open>completion_time\<close>, and with a time that \<open>datetime()\<close> does not read.
\<close>

definition overdue_on :: "int \<Rightarrow> echo_request \<Rightarrow> bool" where
  "overdue_on D r =
     (pathway r \<noteq> GREEN \<and> pathway r \<noteq> REJECTED \<and>
      (case sql_datetime (expected_time r) of
         None \<Rightarrow> False | Some e \<Rightarrow> e < day_start (D + 1)) \<and>
      (case sql_datetime (request_time r) of
         None \<Rightarrow> False | Some q \<Rightarrow> q \<le> day_start (D + 1)) \<and>
      (status r = PENDING \<or>
       (status r = COMPLETED \<and>
        (case completion_time r of
           None \<Rightarrow> False
         | Some ct \<Rightarrow>
             (case sql_datetime ct of None \<Rightarrow> False | Some c \<Rightarrow> c > day_start D))) \<or>
       (status r = COMPLETED \<and>
        (case completion_time r of
           None \<Rightarrow> False
         | Some ct \<Rightarrow>
             (case sql_datetime ct of
                None \<Rightarrow> False
              | Some c \<Rightarrow>
                  c \<ge> day_start D \<and> c < day_start (D + 1) \<and>
                  (case sql_datetime (expected_time r) of
                     None \<Rightarrow> False | Some e \<Rightarrow> c > e))))))"

text \<open>
  The dates from thirty days ago to today, each with \<open>COUNT(DISTINCT r.id)\<close> over the
  rows joined to it. The source keys the result by the date printed as \<open>YYYY-MM-DD\<close>;
  here the key is the date.
\<close>

definition count_distinct_ids :: "echo_request list \<Rightarrow> nat" where
  "count_distinct_ids rs = length (remdups (map row_id rs))"

definition get_daily_overdue :: "clock \<Rightarrow> db \<Rightarrow> (int \<times> nat) list" where
  "get_daily_overdue clk d =
     (let end_date = local_now clk div DAY; start_date = end_date - 30
      in map (\<lambda>D. (D, count_distinct_ids (filter (overdue_on D) (rows d))))
           [start_date..end_date])"


section \<open>Sample data\<close>

text \<open>
  Rows and datetimes for the worked examples: a row with empty descriptive fields, and
  a London summer-time datetime (offset +01:00) at a whole minute.
\<close>

definition request_row ::
    "int \<Rightarrow> string \<Rightarrow> pathway \<Rightarrow> pydatetime \<Rightarrow> pydatetime \<Rightarrow> status \<Rightarrow> pydatetime option
       \<Rightarrow> echo_request" where
  "request_row i rid p rt et st ct =
     \<lparr>row_id = i, request_id = rid, pathway = p, request_time = rt, expected_time = et,
      status = st, triage_date = date_of rt, completion_time = ct,
      notes_col = [], name = [], mrn = [], ward = []\<rparr>"

definition bst :: "int \<Rightarrow> int \<Rightarrow> int \<Rightarrow> int \<Rightarrow> int \<Rightarrow> pydatetime" where
  "bst y m d hh mm = \<lparr>wall = mk_wall y m d hh mm 0, tzinfo = Some 3600\<rparr>"

section \<open>Properties of the deadline calculator\<close>

lemma working_hours_loop_done:
  "hours \<le> 0 \<Longrightarrow> working_hours_loop hol t hours = Some t"
  by (subst working_hours_loop.simps) simp

text \<open>
  Claim C10. For every start and every number of hours that is zero or negative, the
  loop of \<open>add_working_hours_uk\<close> is left at once and the call returns: an aware start
  comes back as it is, a naive one with the same clock reading, tagged with the London
  offset.
\<close>

theorem add_working_hours_uk_nonpositive:
  "hours \<le> 0 \<Longrightarrow>
     add_working_hours_uk london hol t hours =
       Some (if tzinfo t = None then t\<lparr>tzinfo := Some (utcoffset_wall london (wall t))\<rparr> else t)"
  by (simp add: add_working_hours_uk_def working_hours_loop_done localize_def)

theorem add_working_hours_uk_nonpositive_witness:
  "(-5 :: int) \<le> 0 \<and>
   add_working_hours_uk europe_london {} \<lparr>wall = mk_wall 2024 3 1 9 0 0, tzinfo = None\<rparr> (-5) =
     Some \<lparr>wall = mk_wall 2024 3 1 9 0 0, tzinfo = Some (london_wall (mk_wall 2024 3 1 9 0 0))\<rparr> \<and>
   add_working_hours_uk europe_london {} \<lparr>wall = mk_wall 2024 3 1 9 0 0, tzinfo = Some 0\<rparr> (-5) =
     Some \<lparr>wall = mk_wall 2024 3 1 9 0 0, tzinfo = Some 0\<rparr>"
  using add_working_hours_uk_nonpositive [of "-5" europe_london "{}"
      "\<lparr>wall = mk_wall 2024 3 1 9 0 0, tzinfo = None\<rparr>"]
    add_working_hours_uk_nonpositive [of "-5" europe_london "{}"
      "\<lparr>wall = mk_wall 2024 3 1 9 0 0, tzinfo = Some 0\<rparr>"]
  by (simp add: europe_london_def)

text \<open>
  Claim C8, as found in the code. With zero hours an aware start is returned as it is.
  A naive start is not: its clock reading is kept, but the value that comes back
  carries the London offset, and Python holds a naive and an aware datetime unequal.
\<close>

theorem add_working_hours_uk_zero:
  "(tzinfo t \<noteq> None \<longrightarrow> add_working_hours_uk london hol t 0 = Some t) \<and>
   (tzinfo t = None \<longrightarrow>
      add_working_hours_uk london hol t 0 =
        Some (t\<lparr>tzinfo := Some (utcoffset_wall london (wall t))\<rparr>))"
  by (simp add: add_working_hours_uk_def working_hours_loop_done localize_def)

theorem add_working_hours_uk_zero_witness:
  "add_working_hours_uk europe_london {} \<lparr>wall = mk_wall 2024 7 1 9 0 0, tzinfo = Some 3600\<rparr> 0 =
     Some \<lparr>wall = mk_wall 2024 7 1 9 0 0, tzinfo = Some 3600\<rparr> \<and>
   add_working_hours_uk europe_london {} \<lparr>wall = mk_wall 2024 7 1 9 0 0, tzinfo = None\<rparr> 0 =
     Some \<lparr>wall = mk_wall 2024 7 1 9 0 0, tzinfo = Some (london_wall (mk_wall 2024 7 1 9 0 0))\<rparr>"
  using add_working_hours_uk_zero [of "\<lparr>wall = mk_wall 2024 7 1 9 0 0, tzinfo = Some 3600\<rparr>"
      europe_london "{}"]
    add_working_hours_uk_zero [of "\<lparr>wall = mk_wall 2024 7 1 9 0 0, tzinfo = None\<rparr>"
      europe_london "{}"]
  by (simp add: europe_london_def)

text \<open>
  Claim C8 as the specification words it fails for a naive start: what comes back
  differs from what went in.
\<close>

theorem add_working_hours_uk_zero_naive_changed:
  "add_working_hours_uk europe_london {} \<lparr>wall = mk_wall 2024 3 1 9 0 0, tzinfo = None\<rparr> 0
     \<noteq> Some \<lparr>wall = mk_wall 2024 3 1 9 0 0, tzinfo = None\<rparr>"
  by (simp add: add_working_hours_uk_def working_hours_loop_done localize_def)

lemma next_hour_same_day:
  assumes "w mod DAY = 9 * HOUR"
  shows "(w + HOUR) div DAY = w div DAY"
proof -
  define q where "q = w div DAY"
  have w: "w = 9 * HOUR + q * DAY"
    using assms div_mult_mod_eq [of w DAY] by (simp add: q_def)
  have "w + HOUR = 10 * HOUR + q * DAY" by (simp add: w)
  then have "(w + HOUR) div DAY = (10 * HOUR + q * DAY) div DAY" by (rule arg_cong)
  also have "\<dots> = q" by (simp add: DAY_def HOUR_def)
  finally show ?thesis by (simp add: q_def)
qed

lemma friday_next_hour:
  assumes "weekday (date_of t) = 4" and "wall t mod DAY = 9 * HOUR"
  shows "\<not> is_weekend_or_bank_holiday {} (date_of (add_hours t 1))"
  using assms next_hour_same_day [of "wall t"]
  by (simp add: is_weekend_or_bank_holiday_def date_of_def add_hours_def Let_def)

text \<open>
  Claim C6, as found in the code. Every hour of a working day counts, so from a Friday
  at 09:00 with no holidays configured one working hour ends on the same Friday at
  10:00 (a naive start is first tagged with the London offset).
\<close>

theorem friday_morning_one_hour:
  assumes "weekday (date_of t) = 4" and "wall t mod DAY = 9 * HOUR"
  shows "add_working_hours_uk london {} t 1 =
           Some (add_hours (if tzinfo t = None then localize london t else t) 1)"
proof -
  define s where "s = (if tzinfo t = None then localize london t else t)"
  have "wall s = wall t" by (simp add: s_def localize_def)
  then have "weekday (date_of s) = 4" and "wall s mod DAY = 9 * HOUR"
    using assms by (simp_all add: date_of_def)
  then have nw: "\<not> is_weekend_or_bank_holiday {} (date_of (add_hours s 1))"
    by (rule friday_next_hour)
  have "working_hours_loop {} s 1 = working_hours_loop {} (add_hours s 1) 0"
    by (subst working_hours_loop.simps) (simp add: nw)
  then have "working_hours_loop {} s 1 = Some (add_hours s 1)"
    by (simp add: working_hours_loop_done)
  then show ?thesis
    by (simp add: add_working_hours_uk_def s_def)
qed

theorem friday_morning_one_hour_witness:
  "weekday (date_of \<lparr>wall = mk_wall 2024 3 1 9 0 0, tzinfo = Some 0\<rparr>) = 4 \<and>
   wall \<lparr>wall = mk_wall 2024 3 1 9 0 0, tzinfo = Some 0\<rparr> mod DAY = 9 * HOUR \<and>
   add_working_hours_uk europe_london {} \<lparr>wall = mk_wall 2024 3 1 9 0 0, tzinfo = Some 0\<rparr> 1
     = Some \<lparr>wall = mk_wall 2024 3 1 10 0 0, tzinfo = Some 0\<rparr>"
proof -
  have b: "weekday (date_of \<lparr>wall = mk_wall 2024 3 1 9 0 0, tzinfo = Some 0\<rparr>) = 4"
    by code_simp
  have c: "wall \<lparr>wall = mk_wall 2024 3 1 9 0 0, tzinfo = Some 0\<rparr> mod DAY = 9 * HOUR"
    by code_simp
  have d: "add_hours \<lparr>wall = mk_wall 2024 3 1 9 0 0, tzinfo = Some 0\<rparr> 1 =
             \<lparr>wall = mk_wall 2024 3 1 10 0 0, tzinfo = Some 0\<rparr>"
    by code_simp
  show ?thesis
    using b c friday_morning_one_hour [OF b c, of europe_london] d by simp
qed

text \<open>
  Claim C6 as the specification words it fails: 1 March 2024 is a Friday, and from
  09:00 on that day the result is 10:00 on that day, not 09:00 on Monday 4 March.
\<close>

theorem friday_morning_not_monday:
  "weekday (days_from_civil 2024 3 1) = 4 \<and>
   weekday (days_from_civil 2024 3 4) = 0 \<and>
   add_working_hours_uk europe_london {} \<lparr>wall = mk_wall 2024 3 1 9 0 0, tzinfo = Some 0\<rparr> 1
     = Some \<lparr>wall = mk_wall 2024 3 1 10 0 0, tzinfo = Some 0\<rparr> \<and>
   mk_wall 2024 3 1 10 0 0 \<noteq> mk_wall 2024 3 4 9 0 0"
  by code_simp

section \<open>Properties of the store\<close>

lemma update_where_absent:
  "i \<notin> row_id ` set (rows d) \<Longrightarrow> update_where i f d = d"
proof -
  assume a: "i \<notin> row_id ` set (rows d)"
  have "map (\<lambda>r. if row_id r = i then f r else r) (rows d) = rows d"
    using a by (intro map_idI) auto
  then show ?thesis by (simp add: update_where_def)
qed

text \<open>
  Claim C3, as found in the code. No handler looks at the number of rows its statement
  touched, and there is no not-found answer anywhere: for an id that no row has,
  \<open>mark_completed\<close>, \<open>undo_completed\<close> and \<open>delete_request\<close> each answer
  \<open>{"status": "success"}\<close> with HTTP status 200, and leave the table as it was.
\<close>

theorem absent_id_reports_success:
  assumes "i \<notin> row_id ` set (rows d)"
  shows "mark_completed london clk (Some i) d = ((Status_success, 200), d) \<and>
         undo_completed (Some i) d = ((Status_success, 200), d) \<and>
         delete_request (Some i) d = ((Status_success, 200), d)"
proof -
  have "filter (\<lambda>r. row_id r \<noteq> i) (rows d) = rows d"
    using assms by (auto simp: filter_id_conv)
  then show ?thesis
    using assms
    by (simp add: mark_completed_def undo_completed_def delete_request_def update_where_absent)
qed

theorem absent_id_reports_success_witness:
  "(7::int) \<notin> row_id ` set (rows \<lparr>rows = [], last_rowid = 3\<rparr>) \<and>
   mark_completed europe_london \<lparr>utc_now = 0, local_now = 0\<rparr> (Some 7) \<lparr>rows = [], last_rowid = 3\<rparr>
     = ((Status_success, 200), \<lparr>rows = [], last_rowid = 3\<rparr>) \<and>
   undo_completed (Some 7) \<lparr>rows = [], last_rowid = 3\<rparr>
     = ((Status_success, 200), \<lparr>rows = [], last_rowid = 3\<rparr>) \<and>
   delete_request (Some 7) \<lparr>rows = [], last_rowid = 3\<rparr>
     = ((Status_success, 200), \<lparr>rows = [], last_rowid = 3\<rparr>)"
  using absent_id_reports_success [of 7 "\<lparr>rows = [], last_rowid = 3\<rparr>" europe_london
      "\<lparr>utc_now = 0, local_now = 0\<rparr>"]
  by simp

text \<open>
  Claim C3 as the specification words it fails: on the empty table the three calls for
  id 7 report success, not an error.
\<close>

theorem absent_id_not_an_error:
  "fst (mark_completed europe_london \<lparr>utc_now = 0, local_now = 0\<rparr> (Some 7) empty_db)
     = (Status_success, 200) \<and>
   fst (undo_completed (Some 7) empty_db) = (Status_success, 200) \<and>
   fst (delete_request (Some 7) empty_db) = (Status_success, 200)"
  by (simp add: mark_completed_def undo_completed_def delete_request_def)

lemma inv_update_where:
  assumes "completion_inv d" and "\<And>r. completion_ok r \<Longrightarrow> completion_ok (f r)"
  shows "completion_inv (update_where i f d)"
  using assms unfolding completion_inv_def update_where_def by auto

lemma inv_add_request:
  assumes "completion_inv d" and "add_request london hol clk data d = Some (resp, d')"
  shows "completion_inv d'"
  using assms
  by (auto simp: add_request_def completion_inv_def completion_ok_def insert_request_def
           split: option.splits sum.splits prod.splits if_splits)

lemma inv_handle:
  assumes "completion_inv d" and "handle london hol c d = Some (resp, d')"
  shows "completion_inv d'"
proof (cases c)
  case (Add_request clk data)
  then show ?thesis using assms inv_add_request by auto
next
  case (Mark_completed clk data)
  then show ?thesis using assms
    by (cases data) (auto simp: mark_completed_def completion_ok_def intro!: inv_update_where)
next
  case (Undo_completed data)
  then show ?thesis using assms
    by (cases data) (auto simp: undo_completed_def completion_ok_def intro!: inv_update_where)
next
  case (Delete_request data)
  then show ?thesis using assms
    by (cases data) (auto simp: delete_request_def completion_inv_def)
next
  case (Update_notes data)
  then show ?thesis using assms
    by (cases data) (auto simp: update_notes_def completion_ok_def intro!: inv_update_where)
next
  case (Update_name data)
  then show ?thesis using assms
    by (cases data) (auto simp: update_name_def completion_ok_def intro!: inv_update_where)
next
  case (Update_mrn data)
  then show ?thesis using assms
    by (cases data) (auto simp: update_mrn_def completion_ok_def intro!: inv_update_where)
next
  case (Update_ward data)
  then show ?thesis using assms
    by (cases data) (auto simp: update_ward_def completion_ok_def intro!: inv_update_where)
qed

lemma inv_run:
  "completion_inv d \<Longrightarrow> run london hol cs d = Some (resps, d') \<Longrightarrow> completion_inv d'"
proof (induction cs arbitrary: d resps)
  case Nil
  then show ?case by simp
next
  case (Cons c cs)
  then show ?case
    by (auto split: option.splits prod.splits dest: inv_handle)
qed

lemma add_request_starts_pending:
  assumes "add_request london hol clk data d = Some ((Request_id new_id, 200), d')"
  shows "\<exists>r. rows d' = rows d @ [r] \<and> status r = PENDING \<and> completion_time r = None"
  using assms unfolding add_request_def insert_request_def
  by (auto split: option.splits sum.splits prod.splits if_splits)

text \<open>
  Claim C9. From a table in which a completion time is stored exactly for the completed
  rows (the empty table is one), every run of calls that returns leaves such a table
  again: \<open>add_request\<close> inserts a pending row without completion time,
  \<open>mark_completed\<close> sets both columns, \<open>undo_completed\<close> clears both, and the other
  handlers touch neither.
\<close>

theorem completion_time_iff_completed:
  assumes "completion_inv d" and "run london hol calls d = Some (resps, d')"
  shows "\<forall>r \<in> set (rows d'). (completion_time r \<noteq> None) = (status r = COMPLETED)"
  using inv_run [OF assms] by (simp add: completion_inv_def completion_ok_def)


theorem completion_time_iff_completed_witness:
  "completion_inv empty_db \<and>
   map_option (\<lambda>p. map (\<lambda>r. (status r, completion_time r \<noteq> None)) (rows (snd p)))
     (run europe_london {}
        [Add_request \<lparr>utc_now = mk_wall 2024 7 1 8 0 0, local_now = mk_wall 2024 7 1 9 0 0\<rparr>
           (Some \<lparr>j_pathway = Some ''PURPLE PATHWAY'',
                  j_request_time = Some (Some \<lparr>wall = mk_wall 2024 7 1 9 0 0, tzinfo = Some 3600\<rparr>),
                  j_name = Some ''A'', j_mrn = None, j_ward = None\<rparr>),
         Add_request \<lparr>utc_now = mk_wall 2024 7 1 8 5 0, local_now = mk_wall 2024 7 1 9 5 0\<rparr>
           (Some \<lparr>j_pathway = Some ''GREEN PATHWAY'',
                  j_request_time = Some (Some \<lparr>wall = mk_wall 2024 7 1 9 5 0, tzinfo = Some 3600\<rparr>),
                  j_name = None, j_mrn = None, j_ward = None\<rparr>),
         Mark_completed \<lparr>utc_now = mk_wall 2024 7 1 10 0 0, local_now = mk_wall 2024 7 1 11 0 0\<rparr> (Some 1),
         Mark_completed \<lparr>utc_now = mk_wall 2024 7 1 10 1 0, local_now = mk_wall 2024 7 1 11 1 0\<rparr> (Some 2),
         Update_notes (Some (1, Some ''seen'')),
         Undo_completed (Some 2)]
        empty_db)
   = Some [(COMPLETED, True), (PENDING, False)]"
proof -
  let ?calls = "[Add_request \<lparr>utc_now = mk_wall 2024 7 1 8 0 0, local_now = mk_wall 2024 7 1 9 0 0\<rparr>
           (Some \<lparr>j_pathway = Some ''PURPLE PATHWAY'',
                  j_request_time = Some (Some \<lparr>wall = mk_wall 2024 7 1 9 0 0, tzinfo = Some 3600\<rparr>),
                  j_name = Some ''A'', j_mrn = None, j_ward = None\<rparr>),
         Add_request \<lparr>utc_now = mk_wall 2024 7 1 8 5 0, local_now = mk_wall 2024 7 1 9 5 0\<rparr>
           (Some \<lparr>j_pathway = Some ''GREEN PATHWAY'',
                  j_request_time = Some (Some \<lparr>wall = mk_wall 2024 7 1 9 5 0, tzinfo = Some 3600\<rparr>),
                  j_name = None, j_mrn = None, j_ward = None\<rparr>),
         Mark_completed \<lparr>utc_now = mk_wall 2024 7 1 10 0 0, local_now = mk_wall 2024 7 1 11 0 0\<rparr> (Some 1),
         Mark_completed \<lparr>utc_now = mk_wall 2024 7 1 10 1 0, local_now = mk_wall 2024 7 1 11 1 0\<rparr> (Some 2),
         Update_notes (Some (1, Some ''seen'')),
         Undo_completed (Some 2)]"
  have i: "completion_inv empty_db"
    by (simp add: completion_inv_def empty_db_def)
  have st: "map_option (\<lambda>p. map status (rows (snd p))) (run europe_london {} ?calls empty_db)
              = Some [COMPLETED, PENDING]"
    by code_simp
  then obtain resps d' where r: "run europe_london {} ?calls empty_db = Some (resps, d')"
    and s: "map status (rows d') = [COMPLETED, PENDING]"
    by (cases "run europe_london {} ?calls empty_db") auto
  have "\<forall>r \<in> set (rows d'). (completion_time r \<noteq> None) = (status r = COMPLETED)"
    using completion_time_iff_completed [OF i r] .
  then have "map (\<lambda>r. (status r, completion_time r \<noteq> None)) (rows d')
               = map (\<lambda>r. (status r, status r = COMPLETED)) (rows d')"
    by simp
  also have "\<dots> = map (\<lambda>s. (s, s = COMPLETED)) (map status (rows d'))"
    by (simp add: comp_def)
  also have "\<dots> = [(COMPLETED, True), (PENDING, False)]"
    by (simp add: s)
  finally show ?thesis using i r by simp
qed

section \<open>Properties of request creation\<close>

lemma working_hours_loop_tzinfo:
  assumes "working_hours_loop hol c n = Some e"
  shows "tzinfo e = tzinfo c"
proof (rule working_hours_loop.raw_induct
    [where P = "\<lambda>h c n e. tzinfo e = tzinfo c", OF _ assms])
  fix loop :: "string set \<Rightarrow> pydatetime \<Rightarrow> int \<Rightarrow> pydatetime option"
  fix h c n e
  assume IH: "\<And>h c n e. loop h c n = Some e \<Longrightarrow> tzinfo e = tzinfo c"
  assume body: "(if n > 0
      then (if \<not> is_weekend_or_bank_holiday h (date_of (add_hours c 1))
            then loop h (add_hours c 1) (n - 1)
            else loop h (add_hours c 1) n)
      else Some c) = Some e"
  show "tzinfo e = tzinfo c"
  proof (cases "n > 0")
    case True
    then have "loop h (add_hours c 1) (n - 1) = Some e \<or> loop h (add_hours c 1) n = Some e"
      using body by (simp split: if_splits)
    then have "tzinfo e = tzinfo (add_hours c 1)" using IH by blast
    then show ?thesis by (simp add: add_hours_def)
  next
    case False
    then show ?thesis using body by simp
  qed
qed

lemma convert_to_uk_time_idem:
  "convert_to_uk_time london (convert_to_uk_time london dt) = convert_to_uk_time london dt"
  by (simp add: convert_to_uk_time_def astimezone_def utc_micros_def Let_def split: option.splits)

lemma convert_to_uk_time_aware: "tzinfo (convert_to_uk_time london dt) \<noteq> None"
  by (simp add: convert_to_uk_time_def astimezone_def Let_def split: option.splits)

lemma uk_time_to_iso_convert:
  "uk_time_to_iso london (convert_to_uk_time london dt) = convert_to_uk_time london dt"
  by (simp add: uk_time_to_iso_def convert_to_uk_time_aware convert_to_uk_time_idem)

lemma uk_time_to_iso_same_instant:
  "tzinfo e \<noteq> None \<Longrightarrow> datetime_eq (uk_time_to_iso london e) e"
  by (auto simp: uk_time_to_iso_def convert_to_uk_time_def astimezone_def utc_micros_def
      datetime_eq_def Let_def)

lemma add_working_hours_uk_aware:
  assumes "add_working_hours_uk london hol s h = Some e" "tzinfo s \<noteq> None"
  shows "tzinfo e \<noteq> None"
  using assms working_hours_loop_tzinfo [of hol s h e]
  by (auto simp: add_working_hours_uk_def)

lemma deadline_same_instant:
  assumes "add_working_hours_uk london hol (convert_to_uk_time london dt) h = Some e"
  shows "datetime_eq (uk_time_to_iso london e) e"
  using add_working_hours_uk_aware [OF assms convert_to_uk_time_aware]
  by (rule uk_time_to_iso_same_instant)

text \<open>
  Claim C5. The row that \<open>add_request\<close> inserts has, for GREEN and REJECTED, an expected
  time equal to its request time; for PURPLE, RED and AMBER the expected time is what
  \<open>add_working_hours_uk\<close> returns for the stored request time and 1, 24 and 72 hours:
  the stored value is that result passed through \<open>uk_time_to_iso\<close>, which keeps the
  instant (the two are equal as Python datetimes).
\<close>

theorem expected_time_by_pathway:
  assumes "add_request london hol clk data d = Some ((Request_id new_id, 200), d')"
  shows "\<exists>r. rows d' = rows d @ [r] \<and>
     (pathway r = GREEN \<or> pathway r = REJECTED \<longrightarrow> expected_time r = request_time r) \<and>
     (pathway r = PURPLE \<longrightarrow>
        (\<exists>e. add_working_hours_uk london hol (request_time r) 1 = Some e \<and>
             expected_time r = uk_time_to_iso london e \<and> datetime_eq (expected_time r) e)) \<and>
     (pathway r = RED \<longrightarrow>
        (\<exists>e. add_working_hours_uk london hol (request_time r) 24 = Some e \<and>
             expected_time r = uk_time_to_iso london e \<and> datetime_eq (expected_time r) e)) \<and>
     (pathway r = AMBER \<longrightarrow>
        (\<exists>e. add_working_hours_uk london hol (request_time r) 72 = Some e \<and>
             expected_time r = uk_time_to_iso london e \<and> datetime_eq (expected_time r) e))"
  using assms unfolding add_request_def iso_to_uk_time_def insert_request_def
  by (auto split: option.splits sum.splits prod.splits if_splits
      simp: uk_time_to_iso_convert deadline_same_instant)

theorem expected_time_by_pathway_witness:
  "add_request europe_london {}
     \<lparr>utc_now = mk_wall 2024 7 1 8 0 0, local_now = mk_wall 2024 7 1 9 0 0\<rparr>
     (Some \<lparr>j_pathway = Some ''PURPLE PATHWAY'',
            j_request_time = Some (Some \<lparr>wall = mk_wall 2024 7 1 8 0 0, tzinfo = Some 0\<rparr>),
            j_name = None, j_mrn = None, j_ward = None\<rparr>)
     empty_db =
   Some ((Request_id ''24.0001'', 200),
         \<lparr>rows = [\<lparr>row_id = 1, request_id = ''24.0001'', pathway = PURPLE,
                   request_time = \<lparr>wall = mk_wall 2024 7 1 9 0 0, tzinfo = Some 3600\<rparr>,
                   expected_time = \<lparr>wall = mk_wall 2024 7 1 10 0 0, tzinfo = Some 3600\<rparr>,
                   status = PENDING, triage_date = days_from_civil 2024 7 1,
                   completion_time = None, notes_col = [], name = [], mrn = [], ward = []\<rparr>],
          last_rowid = 1\<rparr>) \<and>
   add_working_hours_uk europe_london {}
     \<lparr>wall = mk_wall 2024 7 1 9 0 0, tzinfo = Some 3600\<rparr> 1 =
   Some \<lparr>wall = mk_wall 2024 7 1 10 0 0, tzinfo = Some 3600\<rparr>"
proof -
  let ?d = "\<lparr>rows = [\<lparr>row_id = 1, request_id = ''24.0001'', pathway = PURPLE,
                   request_time = \<lparr>wall = mk_wall 2024 7 1 9 0 0, tzinfo = Some 3600\<rparr>,
                   expected_time = \<lparr>wall = mk_wall 2024 7 1 10 0 0, tzinfo = Some 3600\<rparr>,
                   status = PENDING, triage_date = days_from_civil 2024 7 1,
                   completion_time = None, notes_col = [], name = [], mrn = [], ward = []\<rparr>],
          last_rowid = 1\<rparr>"
  have a: "add_request europe_london {}
     \<lparr>utc_now = mk_wall 2024 7 1 8 0 0, local_now = mk_wall 2024 7 1 9 0 0\<rparr>
     (Some \<lparr>j_pathway = Some ''PURPLE PATHWAY'',
            j_request_time = Some (Some \<lparr>wall = mk_wall 2024 7 1 8 0 0, tzinfo = Some 0\<rparr>),
            j_name = None, j_mrn = None, j_ward = None\<rparr>)
     empty_db = Some ((Request_id ''24.0001'', 200), ?d)"
    by code_simp
  from expected_time_by_pathway [OF a] obtain r e where
    r: "rows ?d = rows empty_db @ [r]" and
    e: "pathway r = PURPLE \<longrightarrow>
          add_working_hours_uk europe_london {} (request_time r) 1 = Some e \<and>
          expected_time r = uk_time_to_iso europe_london e \<and> datetime_eq (expected_time r) e"
    by blast
  from r have rr: "r = \<lparr>row_id = 1, request_id = ''24.0001'', pathway = PURPLE,
                   request_time = \<lparr>wall = mk_wall 2024 7 1 9 0 0, tzinfo = Some 3600\<rparr>,
                   expected_time = \<lparr>wall = mk_wall 2024 7 1 10 0 0, tzinfo = Some 3600\<rparr>,
                   status = PENDING, triage_date = days_from_civil 2024 7 1,
                   completion_time = None, notes_col = [], name = [], mrn = [], ward = []\<rparr>"
    by (simp add: empty_db_def)
  have p: "pathway r = PURPLE"
    and rt: "request_time r = \<lparr>wall = mk_wall 2024 7 1 9 0 0, tzinfo = Some 3600\<rparr>"
    and et: "expected_time r = \<lparr>wall = mk_wall 2024 7 1 10 0 0, tzinfo = Some 3600\<rparr>"
    using rr by simp_all
  from e p have e1: "add_working_hours_uk europe_london {} (request_time r) 1 = Some e"
    and e3: "datetime_eq (expected_time r) e"
    by blast+
  have "working_hours_loop {} (request_time r) 1 = Some e"
    using e1 unfolding rt by (simp add: add_working_hours_uk_def)
  then have tz: "tzinfo e = Some 3600"
    using working_hours_loop_tzinfo [of "{}" "request_time r" 1 e] unfolding rt by simp
  have "e = \<lparr>wall = mk_wall 2024 7 1 10 0 0, tzinfo = Some 3600\<rparr>"
    using e3 tz unfolding et by (cases e) (simp add: datetime_eq_def utc_micros_def)
  then show ?thesis using a e1 unfolding rt by simp
qed

lemma convert_to_uk_time_naive:
  "tzinfo t = None \<Longrightarrow>
     convert_to_uk_time london t =
       \<lparr>wall = wall t + utcoffset_utc london (wall t) * SECOND,
        tzinfo = Some (utcoffset_utc london (wall t))\<rparr>"
  by (simp add: convert_to_uk_time_def astimezone_def utc_micros_def Let_def)

text \<open>
  Claim C7, as found in the code. \<open>iso_to_uk_time\<close> hands the parsed value to
  \<open>convert_to_uk_time\<close>, which takes a naive datetime as UTC and converts it to London
  time: the stored request time is the input's reading moved by the London offset in
  force at that instant, so it keeps the reading only while London is on GMT.
\<close>

theorem naive_request_time_read_as_utc:
  assumes "add_request london hol clk (Some j) d = Some ((Request_id new_id, 200), d')"
    and "j_request_time j = Some (Some t)" and "tzinfo t = None"
  shows "\<exists>r. rows d' = rows d @ [r] \<and>
     request_time r = \<lparr>wall = wall t + utcoffset_utc london (wall t) * SECOND,
                       tzinfo = Some (utcoffset_utc london (wall t))\<rparr>"
proof -
  have "\<exists>r. rows d' = rows d @ [r] \<and> request_time r = convert_to_uk_time london t"
    using assms(1,2) unfolding add_request_def iso_to_uk_time_def insert_request_def
    by (auto split: option.splits sum.splits prod.splits if_splits
        simp: uk_time_to_iso_convert)
  then show ?thesis
    by (simp add: convert_to_uk_time_naive [OF assms(3)])
qed

theorem naive_request_time_read_as_utc_witness:
  "add_request europe_london {}
     \<lparr>utc_now = mk_wall 2024 1 15 9 0 0, local_now = mk_wall 2024 1 15 9 0 0\<rparr>
     (Some \<lparr>j_pathway = Some ''REJECTED'',
            j_request_time = Some (Some \<lparr>wall = mk_wall 2024 1 15 9 0 0, tzinfo = None\<rparr>),
            j_name = None, j_mrn = None, j_ward = None\<rparr>)
     empty_db =
   Some ((Request_id ''24.0001'', 200),
         \<lparr>rows = [\<lparr>row_id = 1, request_id = ''24.0001'', pathway = REJECTED,
                   request_time = \<lparr>wall = mk_wall 2024 1 15 9 0 0, tzinfo = Some 0\<rparr>,
                   expected_time = \<lparr>wall = mk_wall 2024 1 15 9 0 0, tzinfo = Some 0\<rparr>,
                   status = PENDING, triage_date = days_from_civil 2024 1 15,
                   completion_time = None, notes_col = [], name = [], mrn = [], ward = []\<rparr>],
          last_rowid = 1\<rparr>) \<and>
   utcoffset_utc europe_london (mk_wall 2024 1 15 9 0 0) = 0"
proof -
  let ?j = "\<lparr>j_pathway = Some ''REJECTED'',
            j_request_time = Some (Some \<lparr>wall = mk_wall 2024 1 15 9 0 0, tzinfo = None\<rparr>),
            j_name = None, j_mrn = None, j_ward = None\<rparr>"
  let ?d = "\<lparr>rows = [\<lparr>row_id = 1, request_id = ''24.0001'', pathway = REJECTED,
                   request_time = \<lparr>wall = mk_wall 2024 1 15 9 0 0, tzinfo = Some 0\<rparr>,
                   expected_time = \<lparr>wall = mk_wall 2024 1 15 9 0 0, tzinfo = Some 0\<rparr>,
                   status = PENDING, triage_date = days_from_civil 2024 1 15,
                   completion_time = None, notes_col = [], name = [], mrn = [], ward = []\<rparr>],
          last_rowid = 1\<rparr>"
  have a: "add_request europe_london {}
     \<lparr>utc_now = mk_wall 2024 1 15 9 0 0, local_now = mk_wall 2024 1 15 9 0 0\<rparr>
     (Some ?j) empty_db = Some ((Request_id ''24.0001'', 200), ?d)"
    by code_simp
  have b: "j_request_time ?j = Some (Some \<lparr>wall = mk_wall 2024 1 15 9 0 0, tzinfo = None\<rparr>)"
    by simp
  have c: "tzinfo \<lparr>wall = mk_wall 2024 1 15 9 0 0, tzinfo = None\<rparr> = None"
    by simp
  from naive_request_time_read_as_utc [OF a b c]
  have "utcoffset_utc europe_london (mk_wall 2024 1 15 9 0 0) = 0"
    by (simp add: empty_db_def)
  then show ?thesis using a by simp
qed

text \<open>
  Claim C7 as the specification words it fails in summer: a naive 09:00 on 1 July 2024
  is stored as 10:00 with offset +01:00, not as 09:00 London time.
\<close>

theorem naive_request_time_shifted_in_summer:
  "add_request europe_london {}
     \<lparr>utc_now = mk_wall 2024 7 1 8 0 0, local_now = mk_wall 2024 7 1 9 0 0\<rparr>
     (Some \<lparr>j_pathway = Some ''GREEN PATHWAY'',
            j_request_time = Some (Some \<lparr>wall = mk_wall 2024 7 1 9 0 0, tzinfo = None\<rparr>),
            j_name = None, j_mrn = None, j_ward = None\<rparr>)
     empty_db =
   Some ((Request_id ''24.0001'', 200),
         \<lparr>rows = [\<lparr>row_id = 1, request_id = ''24.0001'', pathway = GREEN,
                   request_time = \<lparr>wall = mk_wall 2024 7 1 10 0 0, tzinfo = Some 3600\<rparr>,
                   expected_time = \<lparr>wall = mk_wall 2024 7 1 10 0 0, tzinfo = Some 3600\<rparr>,
                   status = PENDING, triage_date = days_from_civil 2024 7 1,
                   completion_time = None, notes_col = [], name = [], mrn = [], ward = []\<rparr>],
          last_rowid = 1\<rparr>) \<and>
   mk_wall 2024 7 1 10 0 0 \<noteq> mk_wall 2024 7 1 9 0 0"
  by code_simp


section \<open>Properties of the queries\<close>

subsection \<open>Overdue requests per day\<close>



lemma overdue_on_iff:
  "overdue_on D r \<longleftrightarrow>
     pathway r \<noteq> GREEN \<and> pathway r \<noteq> REJECTED \<and>
     (\<exists>e q. sql_datetime (expected_time r) = Some e \<and>
            sql_datetime (request_time r) = Some q \<and>
            e < day_start (D + 1) \<and> q \<le> day_start (D + 1) \<and>
            (status r = PENDING \<or>
             (status r = COMPLETED \<and>
              (\<exists>ct c. completion_time r = Some ct \<and> sql_datetime ct = Some c \<and>
                 (c > day_start D \<or> (c = day_start D \<and> c > e))))))"
proof -
  have lt: "day_start D < day_start (D + 1)" by (simp add: day_start_def)
  show ?thesis
    using lt by (auto simp: overdue_on_def split: option.splits)
qed



lemma completed_before_day_not_overdue:
  assumes "status r = COMPLETED" and "completion_time r = Some ct"
    and "sql_datetime ct = Some c" and "c < day_start D"
  shows "\<not> overdue_on D r"
  using assms by (auto simp: overdue_on_iff)

text \<open>
  The fraction of a second of a UTC text is cut off, not rounded: a RED request due at
  noon of 1 December 2024 and completed at \<open>2024-12-01T00:00:00.999600+00:00\<close> has its
  completion read as the start of that day, and is not counted on 1 December. With the
  offset \<open>+01:00\<close> the same fraction reaches the next second.
\<close>

lemma sql_datetime_cuts_utc_fraction:
  "sql_datetime \<lparr>wall = mk_wall 2024 12 1 0 0 0 + 999600, tzinfo = Some 0\<rparr>
     = Some (day_start (days_from_civil 2024 12 1)) \<and>
   sql_datetime \<lparr>wall = mk_wall 2024 12 1 0 0 0 + 999600, tzinfo = None\<rparr>
     = Some (day_start (days_from_civil 2024 12 1)) \<and>
   sql_datetime \<lparr>wall = mk_wall 2024 12 1 1 0 0 + 999600, tzinfo = Some 3600\<rparr>
     = Some (day_start (days_from_civil 2024 12 1) + 1) \<and>
   sql_datetime \<lparr>wall = mk_wall 2024 12 1 1 0 0 + 999499, tzinfo = Some 3600\<rparr>
     = Some (day_start (days_from_civil 2024 12 1)) \<and>
   sql_datetime \<lparr>wall = mk_wall 2024 12 1 0 0 0, tzinfo = Some 3630\<rparr> = None"
  by code_simp

lemma utc_fraction_completion_not_counted:
  "map_of (get_daily_overdue
      \<lparr>utc_now = mk_wall 2024 12 10 9 0 0, local_now = mk_wall 2024 12 10 9 0 0\<rparr>
      \<lparr>rows = [request_row 1 ''24.0001'' RED
                 \<lparr>wall = mk_wall 2024 11 28 12 0 0, tzinfo = Some 0\<rparr>
                 \<lparr>wall = mk_wall 2024 12 1 12 0 0, tzinfo = Some 0\<rparr>
                 COMPLETED
                 (Some \<lparr>wall = mk_wall 2024 12 1 0 0 0 + 999600, tzinfo = Some 0\<rparr>)],
       last_rowid = 1\<rparr>)
     (days_from_civil 2024 12 1) = Some 0"
  by code_simp


subsection \<open>The list of requests\<close>


























text \<open>
  The third \<open>ORDER BY\<close> term of the second tier: the cast of a display id stops at the
  dot, so it yields the year and not the sequence number.
\<close>

lemma cast_integer_of_display_id: "cast_integer ''24.0012'' = 24"
  by code_simp

section \<open>Properties of the display ids\<close>

lemma is_digit_not_special:
  "is_digit c \<Longrightarrow> c \<noteq> CHR ''.'' \<and> c \<noteq> CHR ''+'' \<and> c \<noteq> CHR ''-''"
  by (auto simp: is_digit_def)

lemma digit_char_props:
  assumes "k < 10"
  shows "is_digit (digit_char k)" and "digit_val (digit_char k) = k"
  using assms by (simp_all add: digit_char_def is_digit_def digit_val_def)

lemma str_nat_digits: "list_all is_digit (str_nat n)"
proof (induction n rule: str_nat.induct)
  case (1 n)
  show ?case
  proof (cases "n < 10")
    case True
    then show ?thesis by (subst str_nat.simps) (simp add: digit_char_props)
  next
    case False
    then show ?thesis using 1 by (subst str_nat.simps) (simp add: digit_char_props)
  qed
qed

lemma str_nat_nonempty: "str_nat n \<noteq> []"
  by (subst str_nat.simps) simp

lemma digits_val_snoc: "digits_val (xs @ [c]) = 10 * digits_val xs + digit_val c"
  by (simp add: digits_val_def)

lemma digits_val_str_nat: "digits_val (str_nat n) = n"
proof (induction n rule: str_nat.induct)
  case (1 n)
  show ?case
  proof (cases "n < 10")
    case True
    then show ?thesis by (subst str_nat.simps) (simp add: digits_val_def digit_char_props)
  next
    case False
    then show ?thesis using 1
      by (subst str_nat.simps) (simp add: digits_val_snoc digit_char_props)
  qed
qed

lemma length_str_nat: "n < 10 ^ Suc j \<Longrightarrow> length (str_nat n) \<le> Suc j"
proof (induction n arbitrary: j rule: str_nat.induct)
  case (1 n)
  show ?case
  proof (cases "n < 10")
    case True
    then show ?thesis by (subst str_nat.simps) simp
  next
    case False
    then obtain i where j: "j = Suc i"
      using 1(2) by (cases j) auto
    have "n div 10 < 10 ^ Suc i" using 1(2) j by (simp add: less_mult_imp_div_less mult.commute)
    then have "length (str_nat (n div 10)) \<le> Suc i" using 1(1) False by simp
    then show ?thesis using False j by (subst str_nat.simps) simp
  qed
qed


lemma digits_val_append:
  "digits_val (xs @ ys) = digits_val xs * 10 ^ length ys + digits_val ys"
proof (induction ys rule: rev_induct)
  case Nil
  then show ?case by (simp add: digits_val_def)
next
  case (snoc y ys)
  have "digits_val (xs @ ys @ [y]) = 10 * digits_val (xs @ ys) + digit_val y"
    using digits_val_snoc [of "xs @ ys" y] by simp
  then show ?case using snoc by (simp add: digits_val_snoc algebra_simps)
qed

lemma digits_val_Cons:
  "digits_val (x # xs) = digit_val x * 10 ^ length xs + digits_val xs"
  using digits_val_append [of "[x]" xs] by (simp add: digits_val_def)

lemma digits_val_zeros: "digits_val (replicate k CHR ''0'') = 0"
  by (induction k) (simp_all add: digits_val_Cons digits_val_def digit_val_def)

lemma digit_val_less: "is_digit c \<Longrightarrow> digit_val c < 10"
  by (auto simp: is_digit_def digit_val_def)

lemma digits_val_bound: "list_all is_digit xs \<Longrightarrow> digits_val xs < 10 ^ length xs"
proof (induction xs rule: rev_induct)
  case Nil
  then show ?case by (simp add: digits_val_def)
next
  case (snoc x xs)
  then have "digits_val xs < 10 ^ length xs" and "digit_val x < 10"
    by (simp_all add: digit_val_less)
  then have "10 * digits_val xs + digit_val x < 10 * 10 ^ length xs" by linarith
  then show ?case by (simp add: digits_val_snoc)
qed

lemma digit_less_iff:
  assumes "is_digit x" and "is_digit y"
  shows "x < y \<longleftrightarrow> digit_val x < digit_val y" and "x = y \<longleftrightarrow> digit_val x = digit_val y"
proof -
  have ge: "48 \<le> (of_char x :: nat)" "48 \<le> (of_char y :: nat)"
    using assms by (simp_all add: is_digit_def)
  show "x < y \<longleftrightarrow> digit_val x < digit_val y"
    using ge by (auto simp: digit_val_def less_char_def)
  define a b :: nat where "a = of_char x" and "b = of_char y"
  have "a - 48 = b - 48 \<longleftrightarrow> a = b"
    using ge unfolding a_def [symmetric] b_def [symmetric] by linarith
  then have "digit_val x = digit_val y \<longleftrightarrow> (of_char x :: nat) = of_char y"
    unfolding digit_val_def a_def b_def .
  also have "\<dots> \<longleftrightarrow> x = y" by simp
  finally show "x = y \<longleftrightarrow> digit_val x = digit_val y" by simp
qed

lemma digits_le_iff:
  assumes "length xs = length ys" and "list_all is_digit xs" and "list_all is_digit ys"
  shows "xs \<le> ys \<longleftrightarrow> digits_val xs \<le> digits_val ys"
  using assms
proof (induction xs ys rule: list_induct2)
  case Nil
  then show ?case by simp
next
  case (Cons x xs y ys)
  then have dx: "is_digit x" and dy: "is_digit y"
    and ih: "xs \<le> ys \<longleftrightarrow> digits_val xs \<le> digits_val ys"
    and bx: "digits_val xs < 10 ^ length xs" and by': "digits_val ys < 10 ^ length xs"
    using digits_val_bound [of xs] digits_val_bound [of ys] by simp_all
  define B :: nat where "B = 10 ^ length xs"
  consider "digit_val x < digit_val y" | "digit_val x = digit_val y" | "digit_val y < digit_val x"
    by linarith
  then show ?case
  proof cases
    case 1
    then have "Suc (digit_val x) \<le> digit_val y" by simp
    then have "Suc (digit_val x) * B \<le> digit_val y * B" by (rule mult_le_mono1)
    then have "digit_val x * B + digits_val xs \<le> digit_val y * B + digits_val ys"
      using bx by (simp add: B_def)
    then show ?thesis
      using 1 digit_less_iff [OF dx dy] Cons.hyps by (simp add: digits_val_Cons B_def)
  next
    case 2
    then show ?thesis
      using digit_less_iff [OF dx dy] ih Cons.hyps by (simp add: digits_val_Cons)
  next
    case 3
    then have "Suc (digit_val y) \<le> digit_val x" by simp
    then have "Suc (digit_val y) * B \<le> digit_val x * B" by (rule mult_le_mono1)
    then have "digit_val y * B + digits_val ys < digit_val x * B + digits_val xs"
      using by' by (simp add: B_def)
    then show ?thesis
      using 3 digit_less_iff [OF dx dy] digit_less_iff [OF dy dx] Cons.hyps
      by (auto simp: digits_val_Cons B_def)
  qed
qed

lemma zfill_digits:
  "list_all is_digit s \<Longrightarrow> zfill w s = replicate (w - length s) CHR ''0'' @ s"
  by (cases s) (auto simp: zfill_def dest: is_digit_not_special)

lemma padded_eq: "padded n = replicate (4 - length (str_nat n)) CHR ''0'' @ str_nat n"
  by (simp add: padded_def str_int_def zfill_digits str_nat_digits)

lemma is_digit_zero: "is_digit CHR ''0''"
  by (simp add: is_digit_def)

lemma padded_digits: "list_all is_digit (padded n)"
  using str_nat_digits [of n] by (auto simp: padded_eq is_digit_zero list_all_iff)

lemma padded_val: "digits_val (padded n) = n"
  by (simp add: padded_eq digits_val_append digits_val_zeros digits_val_str_nat)

lemma padded_length: "n < 10000 \<Longrightarrow> length (padded n) = 4"
  using length_str_nat [of n 3] by (simp add: padded_eq)

lemma padded_nonempty: "padded n \<noteq> []"
  by (simp add: padded_eq str_nat_nonempty)

lemma padded_le_iff: "n < 10000 \<Longrightarrow> m < 10000 \<Longrightarrow> padded n \<le> padded m \<longleftrightarrow> n \<le> m"
  using digits_le_iff [of "padded n" "padded m"]
  by (simp add: padded_length padded_digits padded_val)


lemma display_id_eq: "display_id yy n = str_int yy @ ''.'' @ padded n"
  by (simp add: display_id_def padded_def)

lemma append_le_append: "(p @ xs \<le> p @ ys) = (xs \<le> (ys :: string))"
  by (induction p) simp_all

lemma display_id_le_iff:
  "n < 10000 \<Longrightarrow> m < 10000 \<Longrightarrow> display_id yy n \<le> display_id yy m \<longleftrightarrow> n \<le> m"
  using append_le_append [of "str_int yy @ ''.''" "padded n" "padded m"]
  by (simp add: display_id_eq padded_le_iff)

lemma foldl_max_display_id:
  assumes "\<forall>n \<in> set ns. n < 10000" and "a < 10000"
  shows "foldl max (display_id yy a) (map (display_id yy) ns) = display_id yy (foldl max a ns)"
  using assms
proof (induction ns arbitrary: a)
  case Nil
  then show ?case by simp
next
  case (Cons n ns)
  then have n: "n < 10000" by simp
  have "max (display_id yy a) (display_id yy n) = display_id yy (max a n)"
    using display_id_le_iff [OF Cons.prems(2) n, of yy] by (simp add: max_def)
  moreover have "max a n < 10000" using Cons.prems(2) n by simp
  ultimately show ?case using Cons by simp
qed

lemma foldl_max_Max: "foldl max (a :: nat) ns = Max (insert a (set ns))"
proof (induction ns arbitrary: a)
  case Nil
  then show ?case by simp
next
  case (Cons n ns)
  have "Max (insert (max a n) (set ns)) = Max (insert a (insert n (set ns)))"
    by (cases "set ns = {}") (simp_all add: max.assoc)
  then show ?case using Cons by simp
qed

lemma max_text_display_ids:
  assumes "\<forall>n \<in> set ns. n < 10000" and "ns \<noteq> []"
  shows "max_text (map (display_id yy) ns) = Some (display_id yy (Max (set ns)))"
proof -
  obtain a rest where ns: "ns = a # rest" using assms(2) by (cases ns) auto
  then show ?thesis
    using foldl_max_display_id [of rest a yy] assms(1)
    by (simp add: max_text_def foldl_max_Max)
qed

lemma split_dot_nonempty: "split_dot s \<noteq> []"
  by (induction s) (auto split: list.splits)

lemma split_dot_no_dot: "CHR ''.'' \<notin> set s \<Longrightarrow> split_dot s = [s]"
  by (induction s) auto

lemma split_dot_append:
  "CHR ''.'' \<notin> set p \<Longrightarrow> split_dot (p @ CHR ''.'' # q) = p # split_dot q"
  by (induction p) auto

lemma digits_no_dot: "list_all is_digit s \<Longrightarrow> CHR ''.'' \<notin> set s"
  using is_digit_not_special by (auto simp: list_all_iff)

lemma str_int_digits: "0 \<le> yy \<Longrightarrow> list_all is_digit (str_int yy)"
  by (simp add: str_int_def str_nat_digits)

lemma split_dot_display_id:
  "0 \<le> yy \<Longrightarrow> split_dot (display_id yy n) = [str_int yy, padded n]"
  by (simp add: display_id_eq split_dot_append split_dot_no_dot digits_no_dot
      str_int_digits padded_digits)

lemma py_int_padded: "py_int (padded n) = Inr (int n)"
  by (simp add: py_int_def padded_nonempty padded_digits padded_val)

lemma like_prefix_display_id: "like_prefix (str_int yy @ ''.'') (display_id yy n)"
  by (simp add: like_prefix_def display_id_eq)

lemma get_next_request_id_display:
  assumes ids: "filter (like_prefix (str_int (year_of (local_now clk div DAY) mod 100) @ ''.''))
                  (map request_id (rows d))
                = map (display_id (year_of (local_now clk div DAY) mod 100)) ns"
    and small: "\<forall>n \<in> set ns. n < 10000"
  shows "get_next_request_id clk d =
           Inr (display_id (year_of (local_now clk div DAY) mod 100)
                 (if ns = [] then 1 else Max (set ns) + 1))"
proof -
  define yy where "yy = year_of (local_now clk div DAY) mod 100"
  have yy: "0 \<le> yy" by (simp add: yy_def)
  have ids': "filter (like_prefix (str_int yy @ ''.'')) (map request_id (rows d))
                = map (display_id yy) ns"
    using ids by (simp add: yy_def)
  have g: "get_next_request_id clk d =
     (case max_text (filter (like_prefix (str_int yy @ ''.'')) (map request_id (rows d))) of
        None \<Rightarrow> Inr ((str_int yy @ ''.'') @ zfill 4 (str_int 1))
      | Some last_request_id \<Rightarrow>
          (case split_dot last_request_id of
             p0 # p1 # ps \<Rightarrow>
               (case py_int p1 of
                  Inl e \<Rightarrow> Inl e
                | Inr last_seq \<Rightarrow> Inr ((str_int yy @ ''.'') @ zfill 4 (str_int (last_seq + 1))))
           | _ \<Rightarrow> Inl IndexError))"
    unfolding get_next_request_id_def Let_def yy_def by (rule refl)
  have "get_next_request_id clk d = Inr (display_id yy (if ns = [] then 1 else Max (set ns) + 1))"
  proof (cases "ns = []")
    case True
    then show ?thesis
      by (simp add: g ids' max_text_def display_id_def)
  next
    case False
    have m: "max_text (map (display_id yy) ns) = Some (display_id yy (Max (set ns)))"
      using small False by (rule max_text_display_ids)
    have "get_next_request_id clk d =
            Inr ((str_int yy @ ''.'') @ zfill 4 (str_int (int (Max (set ns)) + 1)))"
      by (simp add: g ids' m split_dot_display_id [OF yy] py_int_padded)
    also have "int (Max (set ns)) + 1 = int (Max (set ns) + 1)" by simp
    finally show ?thesis using False by (simp add: display_id_def)
  qed
  then show ?thesis by (simp add: yy_def)
qed


lemma add_request_id_appended:
  assumes "add_request london hol clk data d = Some ((Request_id new_id, 200), d')"
  shows "get_next_request_id clk d = Inr new_id"
    and "map request_id (rows d') = map request_id (rows d) @ [new_id]"
  using assms unfolding add_request_def insert_request_def
  by (auto split: option.splits sum.splits prod.splits if_splits)

lemma add_request_display_id:
  assumes "yy = year_of (local_now clk div DAY) mod 100"
    and "filter (like_prefix (str_int yy @ ''.'')) (map request_id (rows d))
           = map (display_id yy) ns"
    and "\<forall>n \<in> set ns. n < 10000"
    and "add_request london hol clk data d = Some ((Request_id new_id, 200), d')"
  shows "new_id = display_id yy (if ns = [] then 1 else Max (set ns) + 1) \<and>
         filter (like_prefix (str_int yy @ ''.'')) (map request_id (rows d'))
           = map (display_id yy) (ns @ [if ns = [] then 1 else Max (set ns) + 1])"
proof -
  have "get_next_request_id clk d =
          Inr (display_id yy (if ns = [] then 1 else Max (set ns) + 1))"
    using get_next_request_id_display [of clk d ns] assms(1,2,3) by simp
  then have n: "new_id = display_id yy (if ns = [] then 1 else Max (set ns) + 1)"
    using add_request_id_appended(1) [OF assms(4)] by simp
  have "like_prefix (str_int yy @ ''.'') new_id"
    unfolding n by (rule like_prefix_display_id)
  then have "filter (like_prefix (str_int yy @ ''.'')) (map request_id (rows d'))
               = map (display_id yy) ns @ [new_id]"
    using add_request_id_appended(2) [OF assms(4)] assms(2) by simp
  then show ?thesis using n by simp
qed

lemma add_request_cases:
  assumes "add_request london hol clk data d = Some ((b, code), d')"
  shows "(\<exists>new_id. b = Request_id new_id \<and> code = 200) \<or> ((\<forall>s. b \<noteq> Request_id s) \<and> d' = d)"
  using assms unfolding add_request_def
  by (auto split: option.splits sum.splits prod.splits if_splits)

lemma request_ids_update_where:
  "map request_id (rows (update_where i f d)) = map request_id (rows d)"
  if "\<And>r. request_id (f r) = request_id r"
  using that by (simp add: update_where_def)

lemma handle_keeps_ids:
  assumes "handle london hol c d = Some ((b, code), d')"
    and "\<forall>clk data. c \<noteq> Add_request clk data" and "\<forall>data. c \<noteq> Delete_request data"
  shows "map request_id (rows d') = map request_id (rows d) \<and> (\<forall>s. b \<noteq> Request_id s)"
  using assms
  by (cases c)
     (auto simp: mark_completed_def undo_completed_def update_notes_def update_name_def
        update_mrn_def update_ward_def request_ids_update_where
        split: option.splits prod.splits)


lemma Max_insert_zero:
  "Max (insert 0 (set ns)) = (if ns = [] then 0 else Max (set (ns :: nat list)))"
  by (cases ns) (simp_all add: Max_insert2)

lemma upt_shift:
  "map f [1..<Suc (Suc k)] = f 1 # map (\<lambda>i. f (Suc i)) [1..<Suc k]"
proof -
  have "[1..<Suc (Suc k)] = 1 # map Suc [1..<Suc k]"
    by (simp add: map_Suc_upt upt_conv_Cons del: upt_Suc)
  then show ?thesis by (simp add: comp_def del: upt_Suc)
qed

lemma run_display_ids:
  assumes "\<forall>c \<in> set calls. keeps_numbers yy c"
    and "run london hol calls d = Some (resps, d')"
    and "filter (like_prefix (str_int yy @ ''.'')) (map request_id (rows d))
           = map (display_id yy) ns"
    and "Max (insert 0 (set ns)) + length calls \<le> 10000"
  shows "handed_out resps
           = map (\<lambda>i. display_id yy (Max (insert 0 (set ns)) + i))
               [1..<Suc (length (handed_out resps))] \<and>
         filter (like_prefix (str_int yy @ ''.'')) (map request_id (rows d'))
           = map (display_id yy)
               (ns @ map (\<lambda>i. Max (insert 0 (set ns)) + i)
                       [1..<Suc (length (handed_out resps))])"
  using assms
proof (induction calls arbitrary: d ns resps)
  case Nil
  then show ?case by simp
next
  case (Cons c cs)
  let ?M = "Max (insert 0 (set ns))"
  from Cons.prems(2) obtain b code d1 rs where
      h: "handle london hol c d = Some ((b, code), d1)"
      and r: "run london hol cs d1 = Some (rs, d')"
      and resps: "resps = (b, code) # rs"
    by (auto split: option.splits prod.splits)
  have keep: "keeps_numbers yy c" and keeps: "\<forall>c \<in> set cs. keeps_numbers yy c"
    using Cons.prems(1) by simp_all
  have room: "?M + length cs < 10000" using Cons.prems(4) by simp
  consider (created) clk data new_id where "c = Add_request clk data" "b = Request_id new_id"
      "code = 200"
    | (same) "map request_id (rows d1) = map request_id (rows d)" "\<forall>s. b \<noteq> Request_id s"
  proof (cases c)
    case (Add_request clk data)
    then have "add_request london hol clk data d = Some ((b, code), d1)" using h by simp
    from add_request_cases [OF this] show ?thesis
      using Add_request created same by auto
  next
    case (Delete_request data)
    then show ?thesis using keep by simp
  qed (use h handle_keeps_ids [OF h] same in auto)
  then show ?case
  proof cases
    case created
    have yy: "yy = year_of (local_now clk div DAY) mod 100" using keep created(1) by simp
    have ok: "add_request london hol clk data d = Some ((Request_id new_id, 200), d1)"
      using h created by simp
    have nxt: "(if ns = [] then 1 else Max (set ns) + 1) = ?M + 1"
      by (simp add: Max_insert_zero)
    have small: "\<forall>n \<in> set ns. n < 10000"
    proof
      fix n assume "n \<in> set ns"
      then have "n \<le> ?M" by (intro Max_ge) simp_all
      then show "n < 10000" using room by linarith
    qed
    from add_request_display_id [OF yy Cons.prems(3) small ok]
    have new: "new_id = display_id yy (?M + 1)"
      and ids1: "filter (like_prefix (str_int yy @ ''.'')) (map request_id (rows d1))
                   = map (display_id yy) (ns @ [?M + 1])"
      unfolding nxt by blast+
    have M1: "Max (insert 0 (set (ns @ [?M + 1]))) = ?M + 1"
    proof -
      have "Max (insert 0 (set (ns @ [?M + 1]))) = Max (insert (?M + 1) (insert 0 (set ns)))"
        by (simp add: insert_commute)
      also have "\<dots> = max (?M + 1) ?M"
        by (rule Max_insert) simp_all
      finally show ?thesis by simp
    qed
    have room1: "Max (insert 0 (set (ns @ [?M + 1]))) + length cs \<le> 10000"
      unfolding M1 using room by simp
    from Cons.IH [OF keeps r ids1 room1]
    have ih1: "handed_out rs
                 = map (\<lambda>i. display_id yy (?M + 1 + i)) [1..<Suc (length (handed_out rs))]"
      and ih2: "filter (like_prefix (str_int yy @ ''.'')) (map request_id (rows d'))
                 = map (display_id yy)
                     ((ns @ [?M + 1]) @ map (\<lambda>i. ?M + 1 + i) [1..<Suc (length (handed_out rs))])"
      unfolding M1 by blast+
    have ho: "handed_out resps = new_id # handed_out rs"
      using resps created by simp
    have len: "length (handed_out resps) = Suc (length (handed_out rs))"
      using ho by simp
    have a: "handed_out resps
               = map (\<lambda>i. display_id yy (?M + i)) [1..<Suc (length (handed_out resps))]"
      unfolding len upt_shift [where f = "\<lambda>i. display_id yy (?M + i)"]
      using ho new ih1 by simp
    have b: "filter (like_prefix (str_int yy @ ''.'')) (map request_id (rows d'))
               = map (display_id yy)
                   (ns @ map (\<lambda>i. ?M + i) [1..<Suc (length (handed_out resps))])"
      unfolding len upt_shift [where f = "\<lambda>i. ?M + i"]
      using ih2 by simp
    show ?thesis using a b by blast
  next
    case same
    have ids1: "filter (like_prefix (str_int yy @ ''.'')) (map request_id (rows d1))
                  = map (display_id yy) ns"
      using same(1) Cons.prems(3) by simp
    have room1: "?M + length cs \<le> 10000" using room by simp
    have ho: "handed_out resps = handed_out rs"
      using resps same(2) by (cases b) simp_all
    from Cons.IH [OF keeps r ids1 room1]
    show ?thesis unfolding ho .
  qed
qed


text \<open>
  Claim C4, as found in the code. Let the store's display ids of year \<open>yy\<close> be the
  texts the allocator writes for the sequence numbers \<open>ns\<close>, and let \<open>highest\<close> be the
  greatest of them, 0 when the store holds no request of that year. Then along every
  run of calls without a deletion, whose creations are dated in that year, the
  successful creations receive in their order the numbers \<open>highest + 1\<close>, \<open>highest + 2\<close>,
  and so on, and the store's ids of the year are afterwards those of \<open>ns\<close> followed
  by the new numbers. So the first request of a year receives 1, a creation receives
  the greatest number present plus 1, and creations with no deletion between them
  receive consecutive numbers. The store at the start is any store, also one that
  deletions have left: the count goes on from the greatest number present in it. The
  numbers are followed up to 10000.
\<close>

theorem display_id_allocation:
  assumes "filter (like_prefix (str_int yy @ ''.'')) (map request_id (rows d))
             = map (display_id yy) ns"
    and "highest = (if ns = [] then 0 else Max (set ns))"
    and "highest + length calls \<le> 10000"
    and "\<forall>c \<in> set calls. keeps_numbers yy c"
    and "run london hol calls d = Some (resps, d')"
  shows "handed_out resps
           = map (\<lambda>i. display_id yy (highest + i)) [1..<Suc (length (handed_out resps))] \<and>
         filter (like_prefix (str_int yy @ ''.'')) (map request_id (rows d'))
           = map (display_id yy)
               (ns @ map (\<lambda>i. highest + i) [1..<Suc (length (handed_out resps))])"
proof -
  have highest: "highest = Max (insert 0 (set ns))"
    using assms(2) by (simp only: Max_insert_zero)
  show ?thesis
    unfolding highest
    by (rule run_display_ids [OF assms(4) assms(5) assms(1)]) (use assms(3) highest in simp)
qed

theorem display_id_allocation_witness:
  "filter (like_prefix (str_int 24 @ ''.''))
     (map request_id
        [request_row 1 ''23.0417'' GREEN (bst 2023 8 1 9 0) (bst 2023 8 1 9 0) PENDING None,
         request_row 2 ''24.0001'' GREEN (bst 2024 6 3 9 0) (bst 2024 6 3 9 0) PENDING None,
         request_row 4 ''24.0003'' GREEN (bst 2024 6 4 9 0) (bst 2024 6 4 9 0) PENDING None])
     = map (display_id 24) [1, 3] \<and>
   run europe_london {}
     [Add_request \<lparr>utc_now = mk_wall 2024 7 1 8 0 0, local_now = mk_wall 2024 7 1 9 0 0\<rparr>
        (Some \<lparr>j_pathway = Some ''GREEN PATHWAY'',
               j_request_time = Some (Some \<lparr>wall = mk_wall 2024 7 1 8 0 0, tzinfo = Some 0\<rparr>),
               j_name = None, j_mrn = None, j_ward = None\<rparr>),
      Mark_completed \<lparr>utc_now = mk_wall 2024 7 1 8 5 0, local_now = mk_wall 2024 7 1 9 5 0\<rparr>
        (Some 2),
      Add_request \<lparr>utc_now = mk_wall 2024 7 1 8 9 0, local_now = mk_wall 2024 7 1 9 9 0\<rparr>
        (Some \<lparr>j_pathway = Some ''GREEN PATHWAY'',
               j_request_time = Some (Some \<lparr>wall = mk_wall 2024 7 1 8 9 0, tzinfo = Some 0\<rparr>),
               j_name = None, j_mrn = None, j_ward = None\<rparr>)]
     \<lparr>rows =
        [request_row 1 ''23.0417'' GREEN (bst 2023 8 1 9 0) (bst 2023 8 1 9 0) PENDING None,
         request_row 2 ''24.0001'' GREEN (bst 2024 6 3 9 0) (bst 2024 6 3 9 0) PENDING None,
         request_row 4 ''24.0003'' GREEN (bst 2024 6 4 9 0) (bst 2024 6 4 9 0) PENDING None],
      last_rowid = 4\<rparr>
   = Some ([(Request_id ''24.0004'', 200), (Status_success, 200), (Request_id ''24.0005'', 200)],
       \<lparr>rows =
          [request_row 1 ''23.0417'' GREEN (bst 2023 8 1 9 0) (bst 2023 8 1 9 0) PENDING None,
           request_row 2 ''24.0001'' GREEN (bst 2024 6 3 9 0) (bst 2024 6 3 9 0) COMPLETED
             (Some (bst 2024 7 1 9 5)),
           request_row 4 ''24.0003'' GREEN (bst 2024 6 4 9 0) (bst 2024 6 4 9 0) PENDING None,
           request_row 5 ''24.0004'' GREEN (bst 2024 7 1 9 0) (bst 2024 7 1 9 0) PENDING None,
           request_row 6 ''24.0005'' GREEN (bst 2024 7 1 9 9) (bst 2024 7 1 9 9) PENDING None],
        last_rowid = 6\<rparr>) \<and>
   [''24.0004'', ''24.0005''] = [display_id 24 (3 + 1), display_id 24 (3 + 2)]"
proof -
  let ?rows = "[request_row 1 ''23.0417'' GREEN (bst 2023 8 1 9 0) (bst 2023 8 1 9 0) PENDING None,
         request_row 2 ''24.0001'' GREEN (bst 2024 6 3 9 0) (bst 2024 6 3 9 0) PENDING None,
         request_row 4 ''24.0003'' GREEN (bst 2024 6 4 9 0) (bst 2024 6 4 9 0) PENDING None]"
  let ?d = "\<lparr>rows = ?rows, last_rowid = 4\<rparr>"
  let ?d' = "\<lparr>rows =
          [request_row 1 ''23.0417'' GREEN (bst 2023 8 1 9 0) (bst 2023 8 1 9 0) PENDING None,
           request_row 2 ''24.0001'' GREEN (bst 2024 6 3 9 0) (bst 2024 6 3 9 0) COMPLETED
             (Some (bst 2024 7 1 9 5)),
           request_row 4 ''24.0003'' GREEN (bst 2024 6 4 9 0) (bst 2024 6 4 9 0) PENDING None,
           request_row 5 ''24.0004'' GREEN (bst 2024 7 1 9 0) (bst 2024 7 1 9 0) PENDING None,
           request_row 6 ''24.0005'' GREEN (bst 2024 7 1 9 9) (bst 2024 7 1 9 9) PENDING None],
        last_rowid = 6\<rparr>"
  let ?calls = "[Add_request \<lparr>utc_now = mk_wall 2024 7 1 8 0 0, local_now = mk_wall 2024 7 1 9 0 0\<rparr>
        (Some \<lparr>j_pathway = Some ''GREEN PATHWAY'',
               j_request_time = Some (Some \<lparr>wall = mk_wall 2024 7 1 8 0 0, tzinfo = Some 0\<rparr>),
               j_name = None, j_mrn = None, j_ward = None\<rparr>),
      Mark_completed \<lparr>utc_now = mk_wall 2024 7 1 8 5 0, local_now = mk_wall 2024 7 1 9 5 0\<rparr>
        (Some 2),
      Add_request \<lparr>utc_now = mk_wall 2024 7 1 8 9 0, local_now = mk_wall 2024 7 1 9 9 0\<rparr>
        (Some \<lparr>j_pathway = Some ''GREEN PATHWAY'',
               j_request_time = Some (Some \<lparr>wall = mk_wall 2024 7 1 8 9 0, tzinfo = Some 0\<rparr>),
               j_name = None, j_mrn = None, j_ward = None\<rparr>)]"
  let ?resps = "[(Request_id ''24.0004'', 200 :: nat), (Status_success, 200),
                 (Request_id ''24.0005'', 200)]"
  have a: "filter (like_prefix (str_int 24 @ ''.'')) (map request_id (rows ?d))
             = map (display_id 24) [1, 3]"
    by code_simp
  have b: "(3 :: nat) = (if [1, 3 :: nat] = [] then 0 else Max (set [1, 3]))"
    by simp
  have c: "(3 :: nat) + length ?calls \<le> 10000"
    by simp
  have k: "\<forall>c \<in> set ?calls. keeps_numbers 24 c"
    by code_simp
  have ok: "run europe_london {} ?calls ?d = Some (?resps, ?d')"
    by code_simp
  have h: "handed_out ?resps = [''24.0004'', ''24.0005'']"
    by simp
  have u: "[1..<Suc (Suc (Suc 0))] = [1, 2]"
    by (simp add: upt_rec)
  have "[''24.0004'', ''24.0005''] = [display_id 24 (3 + 1), display_id 24 (3 + 2)]"
    using display_id_allocation [OF a b c k ok] unfolding h by (simp add: u)
  then show ?thesis using a ok by simp
qed

text \<open>
  Claim C4 as the specification words it fails when the request with the year's
  highest number is deleted: two creations, the deletion of the second request and a
  third creation hand out the numbers 1, 2 and 2.
\<close>

theorem display_id_reused_after_delete:
  "map_option fst
     (run europe_london {}
        [Add_request \<lparr>utc_now = mk_wall 2024 7 1 8 0 0, local_now = mk_wall 2024 7 1 9 0 0\<rparr>
           (Some \<lparr>j_pathway = Some ''GREEN PATHWAY'',
                  j_request_time = Some (Some \<lparr>wall = mk_wall 2024 7 1 8 0 0, tzinfo = Some 0\<rparr>),
                  j_name = None, j_mrn = None, j_ward = None\<rparr>),
         Add_request \<lparr>utc_now = mk_wall 2024 7 1 8 5 0, local_now = mk_wall 2024 7 1 9 5 0\<rparr>
           (Some \<lparr>j_pathway = Some ''GREEN PATHWAY'',
                  j_request_time = Some (Some \<lparr>wall = mk_wall 2024 7 1 8 5 0, tzinfo = Some 0\<rparr>),
                  j_name = None, j_mrn = None, j_ward = None\<rparr>),
         Delete_request (Some 2),
         Add_request \<lparr>utc_now = mk_wall 2024 7 1 8 9 0, local_now = mk_wall 2024 7 1 9 9 0\<rparr>
           (Some \<lparr>j_pathway = Some ''GREEN PATHWAY'',
                  j_request_time = Some (Some \<lparr>wall = mk_wall 2024 7 1 8 9 0, tzinfo = Some 0\<rparr>),
                  j_name = None, j_mrn = None, j_ward = None\<rparr>)]
        empty_db)
   = Some [(Request_id ''24.0001'', 200), (Request_id ''24.0002'', 200),
           (Status_success, 200), (Request_id ''24.0002'', 200)]"
  by code_simp


end
